theory Spec2Isabelle
  imports Complex_Main
begin

section \<open>Data model\<close>

text \<open>
  The rows of the relational store, as \<^verbatim>\<open>server/storage.ts\<close> reads and writes them.
  The schema file (\<^verbatim>\<open>shared/schema.ts\<close>) is not among the sources; the columns below are
  the ones the server code touches, with the types its expressions give them.
  Instants (\<^verbatim>\<open>Date.now()\<close>, \<^verbatim>\<open>new Date().toISOString()\<close>, SQL \<^verbatim>\<open>now()\<close>) are
  integers: milliseconds since the epoch. Every operation that reads the clock takes the
  reading as its first argument \<open>now\<close>.
\<close>

record ApiToken =
  token_id :: string
  token :: string
  label :: string
  isActive :: bool
  currentBatchCount :: int
  totalGenerated :: int
  batchStartedAt :: "int option"
  lastUsedAt :: "int option"
  requestCount :: "string option"

record TokenSettings =
  settings_id :: string
  lastUsedTokenIndex :: "int option"
  videosPerBatch :: string
  batchDelaySeconds :: string

record VideoHistory =
  video_id :: string
  userId :: string
  prompt :: string
  aspectRatio :: string
  status :: string
  videoUrl :: "string option"
  title :: "string option"
  tokenUsed :: "string option"
  retryCount :: "int option"
  errorMessage :: "string option"
  createdAt :: int
  updatedAt :: int

text \<open>
  \<^verbatim>\<open>user.planExpiry\<close> as \<^verbatim>\<open>isPlanExpired\<close> reads it: null or the empty string
  (\<open>NoExpiry\<close>, falsy), a string \<^verbatim>\<open>new Date\<close> cannot parse (\<open>InvalidDate\<close>, whose
  comparisons are all false), or an instant.
\<close>

datatype expiry = NoExpiry | InvalidDate | ExpiresAt int

record User =
  user_id :: string
  username :: string
  isAdmin :: bool
  planType :: string
  planExpiry :: expiry
  dailyVideoCount :: int

text \<open>
  The state of \<^verbatim>\<open>storage.ts\<close>: the tables and the two module-level maps
  \<^verbatim>\<open>tokenErrorTracking\<close> and \<^verbatim>\<open>tokenCooldowns\<close>. The token table is kept as the list
  of its rows in \<^verbatim>\<open>createdAt\<close> order, which is the order
  \<^verbatim>\<open>orderBy(apiTokens.createdAt)\<close> returns.
\<close>

record storage =
  users :: "User list"
  apiTokens :: "ApiToken list"
  tokenSettings :: "TokenSettings list"
  videoHistory :: "VideoHistory list"
  tokenErrorTracking :: "string \<Rightarrow> int list option"
  tokenCooldowns :: "string \<Rightarrow> int option"

text \<open>
  What the modelled code can throw: a TypeError (a property read on \<^verbatim>\<open>undefined\<close>), the
  database driver refusing a query parameter, the database refusing a write that breaks
  the foreign key of the job table, and the \<^verbatim>\<open>Error\<close> that \<^verbatim>\<open>replaceAllTokens\<close> throws
  on a duplicate in its input.
\<close>

datatype error = TypeError | DriverError | ForeignKeyViolation | DuplicateTokens

section \<open>Token error tracking and cooldown\<close>

definition ERROR_THRESHOLD :: int where
  "ERROR_THRESHOLD = 10"

definition ERROR_WINDOW_MS :: int where
  "ERROR_WINDOW_MS = 20 * 60 * 1000"

definition COOLDOWN_DURATION_MS :: int where
  "COOLDOWN_DURATION_MS = 2 * 60 * 60 * 1000"

definition BATCH_SIZE :: int where
  "BATCH_SIZE = 100"

text \<open>\<^verbatim>\<open>tokenErrorTracking.get(tokenId) || []\<close>\<close>

definition errorsOf :: "storage \<Rightarrow> string \<Rightarrow> int list" where
  "errorsOf s tokenId = (case tokenErrorTracking s tokenId of None \<Rightarrow> [] | Some es \<Rightarrow> es)"

definition recordTokenError :: "int \<Rightarrow> string \<Rightarrow> storage \<Rightarrow> storage" where
  "recordTokenError now tokenId s =
    (let errors = errorsOf s tokenId @ [now];
         recentErrors = filter (\<lambda>timestamp. now - timestamp < ERROR_WINDOW_MS) errors;
         s1 = s\<lparr>tokenErrorTracking := (tokenErrorTracking s)(tokenId \<mapsto> recentErrors)\<rparr>
     in if int (length recentErrors) \<ge> ERROR_THRESHOLD
        then s1\<lparr>tokenCooldowns := (tokenCooldowns s1)(tokenId \<mapsto> now + COOLDOWN_DURATION_MS)\<rparr>
        else s1)"

text \<open>
  \<^verbatim>\<open>isTokenInCooldown\<close> returns its answer and expires a stale entry on the way.
  \<^verbatim>\<open>if (!cooldownEnd)\<close> is true for a missing entry and for the number 0.
\<close>

definition isTokenInCooldown :: "int \<Rightarrow> string \<Rightarrow> storage \<Rightarrow> bool \<times> storage" where
  "isTokenInCooldown now tokenId s =
    (case tokenCooldowns s tokenId of
       None \<Rightarrow> (False, s)
     | Some cooldownEnd \<Rightarrow>
         if cooldownEnd = 0 then (False, s)
         else if now \<ge> cooldownEnd then
           (False, s\<lparr>tokenErrorTracking := (tokenErrorTracking s)(tokenId := None),
                     tokenCooldowns := (tokenCooldowns s)(tokenId := None)\<rparr>)
         else (True, s))"

definition getRecentErrorCount :: "int \<Rightarrow> string \<Rightarrow> storage \<Rightarrow> int" where
  "getRecentErrorCount now tokenId s =
     int (length (filter (\<lambda>timestamp. now - timestamp < ERROR_WINDOW_MS) (errorsOf s tokenId)))"

section \<open>Token dispensers\<close>

text \<open>
  \<^verbatim>\<open>allTokens.filter(token => !this.isTokenInCooldown(token.id))\<close>: the predicate has
  the side effect of expiring stale cooldowns, so the filter threads the state.
\<close>

fun filterAvailable :: "int \<Rightarrow> ApiToken list \<Rightarrow> storage \<Rightarrow> ApiToken list \<times> storage" where
  "filterAvailable now [] s = ([], s)"
| "filterAvailable now (t # ts) s =
     (case isTokenInCooldown now (token_id t) s of
        (c, s1) \<Rightarrow>
          (case filterAvailable now ts s1 of
             (rest, s2) \<Rightarrow> (if c then rest else t # rest, s2)))"

text \<open>The answer of \<^verbatim>\<open>isTokenInCooldown\<close> alone.\<close>

definition coolingDown :: "int \<Rightarrow> storage \<Rightarrow> string \<Rightarrow> bool" where
  "coolingDown now s tokenId = fst (isTokenInCooldown now tokenId s)"

text \<open>
  \<^verbatim>\<open>update(apiTokens).set(...).where(cond).returning()\<close>: the table after the update,
  and the updated rows it returns.
\<close>

definition updateWhere :: "('r \<Rightarrow> bool) \<Rightarrow> ('r \<Rightarrow> 'r) \<Rightarrow> 'r list \<Rightarrow> 'r list" where
  "updateWhere cond f tbl = map (\<lambda>r. if cond r then f r else r) tbl"

definition returning :: "('r \<Rightarrow> bool) \<Rightarrow> ('r \<Rightarrow> 'r) \<Rightarrow> 'r list \<Rightarrow> 'r list" where
  "returning cond f tbl = map f (filter cond tbl)"

text \<open>JavaScript's \<^verbatim>\<open>a % n\<close> on integers, \<open>n > 0\<close>: the sign follows the dividend.\<close>

definition js_rem :: "int \<Rightarrow> int \<Rightarrow> int" where
  "js_rem a n = (if 0 \<le> a then a mod n else - ((- a) mod n))"

text \<open>\<^verbatim>\<open>settings.lastUsedTokenIndex || 0\<close>\<close>

definition currentIndexOf :: "TokenSettings \<Rightarrow> int" where
  "currentIndexOf settings = (case lastUsedTokenIndex settings of None \<Rightarrow> 0 | Some i \<Rightarrow> i)"

text \<open>\<^verbatim>\<open>getTokenById\<close>: the first row with the id.\<close>

definition getTokenById :: "string \<Rightarrow> storage \<Rightarrow> ApiToken option" where
  "getTokenById tokenId s = find (\<lambda>t. token_id t = tokenId) (apiTokens s)"

definition useToken :: "int \<Rightarrow> int option \<Rightarrow> ApiToken \<Rightarrow> ApiToken" where
  "useToken now started t =
     t\<lparr>currentBatchCount := currentBatchCount t + 1,
       totalGenerated := totalGenerated t + 1,
       batchStartedAt := started,
       lastUsedAt := Some now\<rparr>"

text \<open>
  \<^verbatim>\<open>getCurrentBatchToken\<close>. \<open>Inr None\<close> is the source's \<^verbatim>\<open>return undefined\<close>.
  \<^verbatim>\<open>availableTokens[i].id\<close> with a negative \<open>i\<close> and \<^verbatim>\<open>updatedToken.label\<close> on an
  empty \<^verbatim>\<open>returning()\<close> throw a TypeError; the transaction then rolls the tables back,
  the in-memory maps keep what the filter did to them.
\<close>

definition getCurrentBatchToken :: "int \<Rightarrow> storage \<Rightarrow> (error + ApiToken option) \<times> storage" where
  "getCurrentBatchToken now s =
    (case tokenSettings s of
      [] \<Rightarrow> (Inr None, s)
    | settings # _ \<Rightarrow>
      let currentIndex = currentIndexOf settings;
          allTokens = filter isActive (apiTokens s)
      in
      if allTokens = [] then (Inr None, s)
      else
        (case filterAvailable now allTokens s of
          (availableTokens, s1) \<Rightarrow>
          if availableTokens = [] then (Inr None, s1)
          else
            let n = int (length availableTokens);
                tokenIndex = js_rem currentIndex n
            in
            if tokenIndex < 0 then (Inl TypeError, s1)
            else
              let currentTokenId = token_id (availableTokens ! nat tokenIndex) in
              (case getTokenById currentTokenId s1 of
                None \<Rightarrow> (Inr None, s1)
              | Some currentToken \<Rightarrow>
                if currentBatchCount currentToken \<ge> BATCH_SIZE then
                  let nextIndex = js_rem (currentIndex + 1) n in
                  if nextIndex < 0 then (Inl TypeError, s1)
                  else
                    let nextTokenId = token_id (availableTokens ! nat nextIndex);
                        tbl1 = updateWhere (\<lambda>t. token_id t = token_id currentToken)
                                 (\<lambda>t. t\<lparr>currentBatchCount := 0\<rparr>) (apiTokens s1)
                    in
                    (case getTokenById nextTokenId (s1\<lparr>apiTokens := tbl1\<rparr>) of
                      None \<Rightarrow> (Inr None, s1\<lparr>apiTokens := tbl1\<rparr>)
                    | Some nextToken \<Rightarrow>
                      (case returning (\<lambda>t. token_id t = token_id nextToken)
                              (useToken now (Some now)) tbl1 of
                        [] \<Rightarrow> (Inl TypeError, s1)
                      | updatedToken # _ \<Rightarrow>
                          (Inr (Some updatedToken),
                           s1\<lparr>apiTokens := updateWhere (\<lambda>t. token_id t = token_id nextToken)
                                              (useToken now (Some now)) tbl1,
                              tokenSettings := updateWhere (\<lambda>r. settings_id r = settings_id settings)
                                              (\<lambda>r. r\<lparr>lastUsedTokenIndex := Some nextIndex\<rparr>)
                                              (tokenSettings s1)\<rparr>)))
                else
                  let started = (case batchStartedAt currentToken of
                                   None \<Rightarrow> Some now | Some b \<Rightarrow> Some b)
                  in
                  (case returning (\<lambda>t. token_id t = token_id currentToken)
                          (useToken now started) (apiTokens s1) of
                    [] \<Rightarrow> (Inl TypeError, s1)
                  | updatedToken # _ \<Rightarrow>
                      (Inr (Some updatedToken),
                       s1\<lparr>apiTokens := updateWhere (\<lambda>t. token_id t = token_id currentToken)
                                          (useToken now started) (apiTokens s1)\<rparr>)))))"

text \<open>
  The list \<^verbatim>\<open>availableTokens\<close> that \<^verbatim>\<open>getCurrentBatchToken\<close> computes: the active tokens
  that are not in cooldown, in creation order.
\<close>

definition availableTokens :: "int \<Rightarrow> storage \<Rightarrow> ApiToken list" where
  "availableTokens now s = fst (filterAvailable now (filter isActive (apiTokens s)) s)"

text \<open>
  \<^verbatim>\<open>getNextRotationToken\<close>: the active tokens ordered by \<^verbatim>\<open>lastUsedAt\<close> ascending
  (PostgreSQL puts NULL last), the first one that is neither in cooldown nor within one
  error of the threshold. \<^verbatim>\<open>ORDER BY last_used_at\<close> leaves the order of rows with the
  same \<^verbatim>\<open>lastUsedAt\<close> to the database: \<open>physical\<close> ranks the rows in the order in which the
  database delivers such rows, whatever that order is.
\<close>

definition lastUsed_le :: "ApiToken \<Rightarrow> ApiToken \<Rightarrow> bool" where
  "lastUsed_le a b =
     (case lastUsedAt a of
        None \<Rightarrow> lastUsedAt b = None
      | Some x \<Rightarrow> (case lastUsedAt b of None \<Rightarrow> True | Some y \<Rightarrow> x \<le> y))"

fun insertByLastUsed :: "ApiToken \<Rightarrow> ApiToken list \<Rightarrow> ApiToken list" where
  "insertByLastUsed a [] = [a]"
| "insertByLastUsed a (b # bs) =
     (if lastUsed_le a b then a # b # bs else b # insertByLastUsed a bs)"

definition orderByLastUsedAt :: "(ApiToken \<Rightarrow> nat) \<Rightarrow> ApiToken list \<Rightarrow> ApiToken list" where
  "orderByLastUsedAt physical ts = foldr insertByLastUsed (sort_key physical ts) []"

definition SAFE_THRESHOLD :: int where
  "SAFE_THRESHOLD = ERROR_THRESHOLD - 1"

fun firstUsable :: "int \<Rightarrow> ApiToken list \<Rightarrow> storage \<Rightarrow> ApiToken option \<times> storage" where
  "firstUsable now [] s = (None, s)"
| "firstUsable now (t # ts) s =
     (case isTokenInCooldown now (token_id t) s of
        (c, s1) \<Rightarrow>
          if c then firstUsable now ts s1
          else if getRecentErrorCount now (token_id t) s1 \<ge> SAFE_THRESHOLD
               then firstUsable now ts s1
               else (Some t, s1))"

definition getNextRotationToken ::
  "(ApiToken \<Rightarrow> nat) \<Rightarrow> int \<Rightarrow> storage \<Rightarrow> ApiToken option \<times> storage" where
  "getNextRotationToken physical now s =
     firstUsable now (orderByLastUsedAt physical (filter isActive (apiTokens s))) s"

definition toggleApiTokenStatus :: "string \<Rightarrow> bool \<Rightarrow> storage \<Rightarrow> ApiToken option \<times> storage" where
  "toggleApiTokenStatus tokenId active s =
     (case returning (\<lambda>t. token_id t = tokenId) (\<lambda>t. t\<lparr>isActive := active\<rparr>) (apiTokens s) of
        [] \<Rightarrow> None
      | updatedToken # _ \<Rightarrow> Some updatedToken,
      s\<lparr>apiTokens := updateWhere (\<lambda>t. token_id t = tokenId) (\<lambda>t. t\<lparr>isActive := active\<rparr>)
                       (apiTokens s)\<rparr>)"

section \<open>Video history (server/storage.ts)\<close>

text \<open>
  \<^verbatim>\<open>Partial<VideoHistory>\<close> as the callers pass it to \<^verbatim>\<open>.set(...)\<close>: a column is
  either absent (\<open>None\<close>) or given a value.
\<close>

record VideoHistoryFields =
  set_status :: "string option"
  set_videoUrl :: "string option"
  set_tokenUsed :: "string option"
  set_retryCount :: "int option"
  set_errorMessage :: "string option"

definition noFields :: VideoHistoryFields where
  "noFields = \<lparr>set_status = None, set_videoUrl = None, set_tokenUsed = None,
                set_retryCount = None, set_errorMessage = None\<rparr>"

text \<open>
  \<^verbatim>\<open>.set({ ...fields, updatedAt: sql`now()::text` })\<close> on one row.
\<close>

definition applyFields :: "VideoHistoryFields \<Rightarrow> int \<Rightarrow> VideoHistory \<Rightarrow> VideoHistory" where
  "applyFields f now r =
     r\<lparr>status := (case set_status f of None \<Rightarrow> status r | Some v \<Rightarrow> v),
       videoUrl := (case set_videoUrl f of None \<Rightarrow> videoUrl r | Some v \<Rightarrow> Some v),
       tokenUsed := (case set_tokenUsed f of None \<Rightarrow> tokenUsed r | Some v \<Rightarrow> Some v),
       retryCount := (case set_retryCount f of None \<Rightarrow> retryCount r | Some v \<Rightarrow> Some v),
       errorMessage := (case set_errorMessage f of None \<Rightarrow> errorMessage r | Some v \<Rightarrow> Some v),
       updatedAt := now\<rparr>"

definition getVideoById :: "string \<Rightarrow> storage \<Rightarrow> VideoHistory option" where
  "getVideoById videoId s = find (\<lambda>r. video_id r = videoId) (videoHistory s)"

text \<open>
  The foreign key from the job table's \<^verbatim>\<open>tokenUsed\<close> column to the token table. The
  schema file is not among the sources; the constraint is the one \<^verbatim>\<open>replaceAllTokens\<close>
  names when it clears the column on every job before it deletes the tokens
  (\<^verbatim>\<open>nullify all tokenUsed references in video_history to avoid foreign key constraint\<close>).
  A write of a \<^verbatim>\<open>tokenUsed\<close> that is not the id of a token is refused by the database.
\<close>

definition missingToken :: "string option \<Rightarrow> storage \<Rightarrow> bool" where
  "missingToken tokenRef s =
     (case tokenRef of None \<Rightarrow> False | Some t \<Rightarrow> t \<notin> set (map token_id (apiTokens s)))"

text \<open>
  \<^verbatim>\<open>updateVideoHistoryStatus(videoId, userId, status, videoUrl?, errorMessage?)\<close>.
  An optional argument is \<open>None\<close> when the caller passes \<^verbatim>\<open>undefined\<close> or leaves it out;
  \<^verbatim>\<open>if (videoUrl)\<close> is false for that and for the empty string.
\<close>

definition truthy :: "string option \<Rightarrow> bool" where
  "truthy v = (case v of None \<Rightarrow> False | Some x \<Rightarrow> x \<noteq> [])"

definition updateVideoHistoryStatus ::
  "int \<Rightarrow> string \<Rightarrow> string \<Rightarrow> string \<Rightarrow> string option \<Rightarrow> string option \<Rightarrow> storage
     \<Rightarrow> VideoHistory option \<times> storage" where
  "updateVideoHistoryStatus now videoId uid newStatus newVideoUrl newErrorMessage s =
     (let updateData0 = noFields\<lparr>set_status := Some newStatus\<rparr>;
          updateData1 = (if truthy newVideoUrl then updateData0\<lparr>set_videoUrl := newVideoUrl\<rparr>
                         else updateData0);
          updateData = (if truthy newErrorMessage
                        then updateData1\<lparr>set_errorMessage := newErrorMessage\<rparr>
                        else updateData1);
          cond = (\<lambda>r. video_id r = videoId \<and> userId r = uid)
      in (case returning cond (applyFields updateData now) (videoHistory s) of
            [] \<Rightarrow> None
          | updated # _ \<Rightarrow> Some updated,
          s\<lparr>videoHistory := updateWhere cond (applyFields updateData now) (videoHistory s)\<rparr>))"

text \<open>
  \<^verbatim>\<open>updateVideoHistoryFields(videoId, userId, fields)\<close>. TypeScript's types are not checked
  when the server runs, so the second argument is whatever value the caller passes:
  \<^verbatim>\<open>undefined\<close>, a string, or (for a caller that leaves the user id out) the fields
  object itself; the third is then \<^verbatim>\<open>undefined\<close>, and \<^verbatim>\<open>{ ...undefined }\<close> is
  \<^verbatim>\<open>{}\<close>. A truthy second argument is compared with the \<^verbatim>\<open>userId\<close> column. How the
  database driver binds an object to that text column is not in the sources: it is the
  parameter \<open>bindObject\<close>, the text the driver sends, or \<open>None\<close> when it refuses the value.
\<close>

datatype jsarg = Undefined | Str string | Obj VideoHistoryFields

text \<open>
  The statement fails, and writes nothing, when it would give a row a \<^verbatim>\<open>tokenUsed\<close> that
  is not the id of a token.
\<close>

definition updateVideoHistoryFields ::
  "(VideoHistoryFields \<Rightarrow> string option) \<Rightarrow> int \<Rightarrow> string \<Rightarrow> jsarg \<Rightarrow> VideoHistoryFields option
     \<Rightarrow> storage \<Rightarrow> (error + VideoHistory option) \<times> storage" where
  "updateVideoHistoryFields bindObject now videoId uid fieldsArg s =
     (let whereConditions =
            (case uid of
               Undefined \<Rightarrow> Some (\<lambda>r. video_id r = videoId)
             | Str u \<Rightarrow> if u = [] then Some (\<lambda>r. video_id r = videoId)
                        else Some (\<lambda>r. video_id r = videoId \<and> userId r = u)
             | Obj obj \<Rightarrow> (case bindObject obj of
                            None \<Rightarrow> None
                          | Some u \<Rightarrow> Some (\<lambda>r. video_id r = videoId \<and> userId r = u)));
          setData = (case fieldsArg of None \<Rightarrow> noFields | Some f \<Rightarrow> f)
      in (case whereConditions of
            None \<Rightarrow> (Inl DriverError, s)
          | Some cond \<Rightarrow>
              if missingToken (set_tokenUsed setData) s \<and> filter cond (videoHistory s) \<noteq> []
              then (Inl ForeignKeyViolation, s)
              else
              (Inr (case returning cond (applyFields setData now) (videoHistory s) of
                      [] \<Rightarrow> None
                    | updated # _ \<Rightarrow> Some updated),
               s\<lparr>videoHistory := updateWhere cond (applyFields setData now) (videoHistory s)\<rparr>)))"





section \<open>Plan enforcement (server/planEnforcement.ts)\<close>

datatype AllowedTool = veo | bulk | script | textToImage | imageToVideo

record BulkGeneration =
  maxBatch :: int
  delaySeconds :: int
  maxPrompts :: int

record PlanConfig =
  name :: string
  dailyVideoLimit :: int
  allowedTools :: "AllowedTool list"
  bulkGeneration :: BulkGeneration

text \<open>
  \<^verbatim>\<open>PLAN_CONFIGS[user.planType]\<close>. \<^verbatim>\<open>PLAN_CONFIGS\<close> is an object literal, so the
  lookup finds its three own keys and, under any other name, what the object inherits from
  \<^verbatim>\<open>Object.prototype\<close>: a function for each of the names below (for \<^verbatim>\<open>__proto__\<close> the
  prototype object itself). Such a value is truthy and has none of a plan's properties:
  reading \<^verbatim>\<open>allowedTools\<close>, \<^verbatim>\<open>bulkGeneration\<close> or \<^verbatim>\<open>dailyVideoLimit\<close> from it gives
  \<^verbatim>\<open>undefined\<close>. Every other plan type gives \<^verbatim>\<open>undefined\<close> (\<open>None\<close>).
\<close>

definition objectPrototypeKeys :: "string list" where
  "objectPrototypeKeys =
     [''constructor'', ''hasOwnProperty'', ''isPrototypeOf'', ''propertyIsEnumerable'',
      ''toLocaleString'', ''toString'', ''valueOf'', ''__proto__'', ''__defineGetter__'',
      ''__defineSetter__'', ''__lookupGetter__'', ''__lookupSetter__'']"

datatype config = Plan PlanConfig | Inherited

definition PLAN_CONFIGS :: "string \<Rightarrow> config option" where
  "PLAN_CONFIGS planTypeKey =
     (if planTypeKey = ''free'' then
        Some (Plan \<lparr>name = ''Free'', dailyVideoLimit = 0, allowedTools = [veo],
              bulkGeneration = \<lparr>maxBatch = 0, delaySeconds = 0, maxPrompts = 0\<rparr>\<rparr>)
      else if planTypeKey = ''scale'' then
        Some (Plan \<lparr>name = ''Scale'', dailyVideoLimit = 1000, allowedTools = [veo, bulk],
              bulkGeneration = \<lparr>maxBatch = 7, delaySeconds = 30, maxPrompts = 50\<rparr>\<rparr>)
      else if planTypeKey = ''empire'' then
        Some (Plan \<lparr>name = ''Empire'', dailyVideoLimit = 2000,
              allowedTools = [veo, bulk, script, textToImage, imageToVideo],
              bulkGeneration = \<lparr>maxBatch = 10, delaySeconds = 10, maxPrompts = 100\<rparr>\<rparr>)
      else if planTypeKey \<in> set objectPrototypeKeys then Some Inherited
      else None)"

text \<open>
  A number as the plan checks compute it: an integer, \<^verbatim>\<open>Infinity\<close> or \<^verbatim>\<open>NaN\<close>.
\<close>

datatype jsnumber = Num int | Infinity | NaN

record PlanCheckResult =
  allowed :: bool
  reason :: "string option"
  remainingVideos :: "jsnumber option"

text \<open>A number in a template string: decimal digits, a minus sign when negative.\<close>

definition digit_char :: "nat \<Rightarrow> char" where
  "digit_char d = ''0123456789'' ! d"

function digits_of :: "nat \<Rightarrow> string \<Rightarrow> string" where
  "digits_of n acc =
     (let acc1 = digit_char (n mod 10) # acc in if n < 10 then acc1 else digits_of (n div 10) acc1)"
  by pat_completeness auto
termination
  by (relation "measure (\<lambda>(n, acc). n)") auto

declare digits_of.simps [simp del]

definition number_text :: "int \<Rightarrow> string" where
  "number_text i = (if i < 0 then CHR ''-'' # digits_of (nat (- i)) [] else digits_of (nat i) [])"

definition jsnumber_text :: "jsnumber \<Rightarrow> string" where
  "jsnumber_text x = (case x of Num i \<Rightarrow> number_text i | Infinity \<Rightarrow> ''Infinity'' | NaN \<Rightarrow> ''NaN'')"

text \<open>\<^verbatim>\<open>count > x\<close> for an integer \<open>count\<close>: false when \<open>x\<close> is \<^verbatim>\<open>Infinity\<close> or \<^verbatim>\<open>NaN\<close>.\<close>

definition exceeds :: "int \<Rightarrow> jsnumber \<Rightarrow> bool" where
  "exceeds count x = (case x of Num i \<Rightarrow> count > i | Infinity \<Rightarrow> False | NaN \<Rightarrow> False)"

definition isPlanExpired :: "int \<Rightarrow> User \<Rightarrow> bool" where
  "isPlanExpired now user =
     (if isAdmin user then False
      else if planType user = ''free'' then False
      else (case planExpiry user of
              ExpiresAt expiryDate \<Rightarrow> now > expiryDate
            | InvalidDate \<Rightarrow> False
            | NoExpiry \<Rightarrow> False))"

text \<open>
  \<^verbatim>\<open>getRemainingVideos\<close>. On an inherited value \<^verbatim>\<open>config.dailyVideoLimit\<close> is
  \<^verbatim>\<open>undefined\<close>, the difference is \<^verbatim>\<open>NaN\<close>, and so is \<^verbatim>\<open>Math.max(0, NaN)\<close>.
\<close>

definition getRemainingVideos :: "User \<Rightarrow> jsnumber" where
  "getRemainingVideos user =
     (if isAdmin user then Infinity
      else (case PLAN_CONFIGS (planType user) of
              None \<Rightarrow> Num 0
            | Some Inherited \<Rightarrow> NaN
            | Some (Plan config) \<Rightarrow> Num (max 0 (dailyVideoLimit config - dailyVideoCount user))))"

text \<open>
  \<^verbatim>\<open>canAccessTool\<close>. \<^verbatim>\<open>if (!config)\<close> lets an inherited value through, and
  \<^verbatim>\<open>config.allowedTools.includes(tool)\<close> then calls a method of \<^verbatim>\<open>undefined\<close>: a
  TypeError, the \<open>Inl\<close> branch.
\<close>

definition canAccessTool :: "int \<Rightarrow> User \<Rightarrow> AllowedTool \<Rightarrow> error + PlanCheckResult" where
  "canAccessTool now user tool =
     (if isAdmin user then Inr \<lparr>allowed = True, reason = None, remainingVideos = None\<rparr>
      else if isPlanExpired now user then
        Inr \<lparr>allowed = False,
             reason = Some ''Your plan has expired. Please contact admin to renew.'',
             remainingVideos = None\<rparr>
      else (case PLAN_CONFIGS (planType user) of
              None \<Rightarrow>
                Inr \<lparr>allowed = False, reason = Some ''Invalid plan type. Please contact admin.'',
                     remainingVideos = None\<rparr>
            | Some Inherited \<Rightarrow> Inl TypeError
            | Some (Plan config) \<Rightarrow>
                if tool \<in> set (allowedTools config)
                then Inr \<lparr>allowed = True, reason = None, remainingVideos = None\<rparr>
                else Inr \<lparr>allowed = False,
                          reason = Some (''This tool is not available on your '' @ name config
                                         @ '' plan. Please upgrade to access this feature.''),
                          remainingVideos = None\<rparr>))"

text \<open>
  \<^verbatim>\<open>canBulkGenerate\<close>. An exception of the tool check passes through. After the tool
  check the source reads \<^verbatim>\<open>config.bulkGeneration.maxPrompts\<close> without testing
  \<^verbatim>\<open>config\<close>: on \<^verbatim>\<open>undefined\<close> and on an inherited value that read throws a TypeError.
\<close>

definition canBulkGenerate :: "int \<Rightarrow> User \<Rightarrow> int \<Rightarrow> error + PlanCheckResult" where
  "canBulkGenerate now user videoCount =
     (if isAdmin user then Inr \<lparr>allowed = True, reason = None, remainingVideos = None\<rparr>
      else
        (case canAccessTool now user bulk of
           Inl e \<Rightarrow> Inl e
         | Inr toolCheck \<Rightarrow>
             if \<not> allowed toolCheck then Inr toolCheck
             else (case PLAN_CONFIGS (planType user) of
                     None \<Rightarrow> Inl TypeError
                   | Some Inherited \<Rightarrow> Inl TypeError
                   | Some (Plan config) \<Rightarrow>
                       if videoCount > maxPrompts (bulkGeneration config) then
                         Inr \<lparr>allowed = False,
                              reason = Some (''Your '' @ name config @ '' plan allows a maximum of ''
                                             @ number_text (maxPrompts (bulkGeneration config))
                                             @ '' prompts in total. Please reduce the number of prompts.''),
                              remainingVideos = None\<rparr>
                       else
                         let remaining = getRemainingVideos user in
                         if exceeds videoCount remaining then
                           Inr \<lparr>allowed = False,
                                reason = Some (''You have '' @ jsnumber_text remaining
                                               @ '' videos remaining today. Cannot generate ''
                                               @ number_text videoCount @ '' videos.''),
                                remainingVideos = None\<rparr>
                         else Inr \<lparr>allowed = True, reason = None,
                                   remainingVideos = Some remaining\<rparr>)))"

text \<open>
  \<^verbatim>\<open>getBatchConfig(user).delaySeconds\<close>, the part of the result the callers use. For an
  inherited value \<^verbatim>\<open>getBatchConfig\<close> returns \<^verbatim>\<open>config.bulkGeneration\<close>, which is
  \<^verbatim>\<open>undefined\<close>, and the caller's read of \<^verbatim>\<open>delaySeconds\<close> throws.
\<close>

definition getBatchConfig_delaySeconds :: "User \<Rightarrow> error + int" where
  "getBatchConfig_delaySeconds user =
     (if isAdmin user then Inr 10
      else (case PLAN_CONFIGS (planType user) of
              None \<Rightarrow> Inr 0
            | Some Inherited \<Rightarrow> Inl TypeError
            | Some (Plan config) \<Rightarrow> Inr (delaySeconds (bulkGeneration config))))"

section \<open>Submission queue (server/bulkQueue.ts)\<close>

record QueuedVideo =
  videoId :: string
  q_prompt :: string
  q_aspectRatio :: string
  sceneNumber :: int
  q_userId :: string

text \<open>
  The server's state as the queue sees it: the store, the module-level \<^verbatim>\<open>bulkQueue\<close> and
  \<^verbatim>\<open>isProcessing\<close>, and the callbacks \<^verbatim>\<open>setTimeout\<close> holds (each with its delay).
\<close>

record server =
  store :: storage
  bulkQueue :: "QueuedVideo list"
  isProcessing :: bool
  timers :: "(int \<times> QueuedVideo) list"

definition MAX_RETRIES :: int where
  "MAX_RETRIES = 2"

definition RETRY_DELAY_MS :: int where
  "RETRY_DELAY_MS = 10000"

text \<open>
  \<^verbatim>\<open>processQueue\<close> up to its first \<^verbatim>\<open>await\<close>: it returns at once when the queue is being
  processed, and otherwise raises the flag. The batches it then submits are the calls of
  \<^verbatim>\<open>processSingleVideo\<close>, which are not part of this model.
\<close>

definition processQueue_entry :: "server \<Rightarrow> server" where
  "processQueue_entry sv = (if isProcessing sv then sv else sv\<lparr>isProcessing := True\<rparr>)"


text \<open>
  \<^verbatim>\<open>handleVideoFailure(video, errorMessage, rotationToken?)\<close>. The retry branch calls
  \<^verbatim>\<open>storage.updateVideoHistoryFields(video.videoId, { retryCount, errorMessage })\<close>: two
  arguments, so the fields object arrives as \<^verbatim>\<open>userId\<close> and \<^verbatim>\<open>fields\<close> is
  \<^verbatim>\<open>undefined\<close>. An exception inside the \<^verbatim>\<open>try\<close> takes the \<^verbatim>\<open>catch\<close> branch.
\<close>

definition handleVideoFailure ::
  "(VideoHistoryFields \<Rightarrow> string option) \<Rightarrow> int \<Rightarrow> QueuedVideo \<Rightarrow> string \<Rightarrow> ApiToken option
     \<Rightarrow> server \<Rightarrow> server" where
  "handleVideoFailure bindObject now video message rotationToken sv =
     (case getVideoById (videoId video) (store sv) of
        None \<Rightarrow> sv
      | Some videoRecord \<Rightarrow>
          let currentRetries = (case retryCount videoRecord of None \<Rightarrow> 0 | Some c \<Rightarrow> c);
              recordError = (\<lambda>sv'. case rotationToken of
                                      None \<Rightarrow> sv'
                                    | Some t \<Rightarrow> sv'\<lparr>store := recordTokenError now (token_id t) (store sv')\<rparr>)
          in
          if currentRetries < MAX_RETRIES then
            let newRetryCount = currentRetries + 1 in
            (case updateVideoHistoryFields bindObject now (videoId video)
                    (Obj (noFields\<lparr>set_retryCount := Some newRetryCount,
                                    set_errorMessage := Some (message @ '' (Retry ''
                                       @ number_text newRetryCount @ ''/''
                                       @ number_text MAX_RETRIES @ '')'')\<rparr>))
                    None (store sv) of
               (Inl _, _) \<Rightarrow>
                 sv\<lparr>store := snd (updateVideoHistoryStatus now (videoId video) (q_userId video)
                                      ''failed'' None (Some message) (store sv))\<rparr>
             | (Inr _, st1) \<Rightarrow>
                 recordError (sv\<lparr>store := st1, timers := timers sv @ [(RETRY_DELAY_MS, video)]\<rparr>))
          else
            recordError
              (sv\<lparr>store := snd (updateVideoHistoryStatus now (videoId video) (q_userId video)
                                   ''failed'' None
                                   (Some (message @ '' (Failed after '' @ number_text MAX_RETRIES
                                          @ '' retries)'')) (store sv))\<rparr>))"

text \<open>
  The callback of the retry timer: \<^verbatim>\<open>bulkQueue.push(video)\<close>, then \<^verbatim>\<open>processQueue()\<close>
  unless the queue is being processed. It runs the first pending timer.
\<close>

definition retryTimerFires :: "server \<Rightarrow> server" where
  "retryTimerFires sv =
     (case timers sv of
        [] \<Rightarrow> sv
      | (_, video) # rest \<Rightarrow>
          let sv1 = sv\<lparr>timers := rest, bulkQueue := bulkQueue sv @ [video]\<rparr>
          in if \<not> isProcessing sv1 then processQueue_entry sv1 else sv1)"

section \<open>Routes: bulk generation, regeneration, history update\<close>










section \<open>The other writers of the job table (server/storage.ts)\<close>








section \<open>A failing submission\<close>

text \<open>
  One failed submission of the job at the head of the queue: \<^verbatim>\<open>processQueue\<close> takes it
  off the queue (\<^verbatim>\<open>bulkQueue.shift()\<close>), the submission fails with a message on a token,
  \<^verbatim>\<open>handleVideoFailure\<close> runs, and the timer it armed, if any, fires.
\<close>

definition failedAttempt ::
  "(VideoHistoryFields \<Rightarrow> string option) \<Rightarrow> int \<Rightarrow> string \<Rightarrow> ApiToken option \<Rightarrow> server \<Rightarrow> server" where
  "failedAttempt bindObject now message rotationToken sv =
     (case bulkQueue sv of
        [] \<Rightarrow> sv
      | video # rest \<Rightarrow>
          retryTimerFires
            (handleVideoFailure bindObject now video message rotationToken (sv\<lparr>bulkQueue := rest\<rparr>)))"

section \<open>Media upload and its cache\<close>

text \<open>
  \<^verbatim>\<open>cloudinaryUploadCache\<close> of the routes module maps a scene id to the promise of an
  upload. The promises are numbered in the order the uploads are started; \<open>uploads\<close> keeps,
  per upload, the scene it is for, who started it and the state of its promise. Node runs
  each piece of code between two \<^verbatim>\<open>await\<close>s without interleaving, so each function below
  is one such piece.
\<close>

datatype origin = StatusRoute | PollingCoordinator

datatype promise = Pending | Fulfilled string | Rejected

record upload =
  up_sceneId :: string
  up_origin :: origin
  up_promise :: promise

record uploader =
  cloudinaryUploadCache :: "string \<Rightarrow> nat option"
  uploads :: "upload list"

text \<open>
  \<^verbatim>\<open>POST /api/check-video-status\<close> on a completed status with a video URL: look the scene
  up, start and cache an upload when there is none, and await the promise (the result is
  the promise awaited).
\<close>

definition statusRouteCompleted :: "string \<Rightarrow> uploader \<Rightarrow> nat \<times> uploader" where
  "statusRouteCompleted sceneId u =
     (case cloudinaryUploadCache u sceneId of
        None \<Rightarrow>
          (let uploadPromise = length (uploads u)
           in (uploadPromise,
               u\<lparr>uploads := uploads u @ [\<lparr>up_sceneId = sceneId, up_origin = StatusRoute,
                                           up_promise = Pending\<rparr>],
                 cloudinaryUploadCache := (cloudinaryUploadCache u)(sceneId \<mapsto> uploadPromise)\<rparr>))
      | Some uploadPromise \<Rightarrow> (uploadPromise, u))"

text \<open>
  \<^verbatim>\<open>checkVideoStatus\<close> of the polling coordinator on a completed status with a video URL:
  \<^verbatim>\<open>await uploadVideoToCloudinary(veoVideoUrl)\<close>, for the job's scene.
\<close>

definition pollingCompleted :: "string \<Rightarrow> uploader \<Rightarrow> nat \<times> uploader" where
  "pollingCompleted sceneId u =
     (length (uploads u),
      u\<lparr>uploads := uploads u @ [\<lparr>up_sceneId = sceneId, up_origin = PollingCoordinator,
                                  up_promise = Pending\<rparr>]\<rparr>)"

text \<open>
  A pending upload finishes. The route attached a \<^verbatim>\<open>.catch\<close> to the uploads it started,
  which deletes the scene's cache entry.
\<close>

definition uploadSettles :: "nat \<Rightarrow> promise \<Rightarrow> uploader \<Rightarrow> uploader" where
  "uploadSettles p result u =
     (if p < length (uploads u) \<and> up_promise (uploads u ! p) = Pending \<and> result \<noteq> Pending then
        (let x = uploads u ! p;
             u1 = u\<lparr>uploads := (uploads u)[p := x\<lparr>up_promise := result\<rparr>]\<rparr>
         in if result = Rejected \<and> up_origin x = StatusRoute
            then u1\<lparr>cloudinaryUploadCache := (cloudinaryUploadCache u1)(up_sceneId x := None)\<rparr>
            else u1)
      else u)"

datatype event = RouteCompleted string | PollCompleted string | Settled nat promise

fun step :: "event \<Rightarrow> uploader \<Rightarrow> uploader" where
  "step (RouteCompleted sceneId) u = snd (statusRouteCompleted sceneId u)"
| "step (PollCompleted sceneId) u = snd (pollingCompleted sceneId u)"
| "step (Settled p result) u = uploadSettles p result u"

fun run :: "event list \<Rightarrow> uploader \<Rightarrow> uploader" where
  "run [] u = u"
| "run (e # es) u = run es (step e u)"

definition initial_uploader :: uploader where
  "initial_uploader = \<lparr>cloudinaryUploadCache = (\<lambda>_. None), uploads = []\<rparr>"

text \<open>The uploads started for a scene, and those among them that have not failed.\<close>

definition uploadsFor :: "string \<Rightarrow> uploader \<Rightarrow> upload list" where
  "uploadsFor sceneId u = filter (\<lambda>x. up_sceneId x = sceneId) (uploads u)"

definition liveRouteUploads :: "string \<Rightarrow> uploader \<Rightarrow> nat list" where
  "liveRouteUploads sceneId u =
     filter (\<lambda>p. up_sceneId (uploads u ! p) = sceneId \<and> up_origin (uploads u ! p) = StatusRoute
                 \<and> up_promise (uploads u ! p) \<noteq> Rejected)
            [0 ..< length (uploads u)]"

text \<open>
  The cache and the uploads agree: every entry points at an upload of its scene that the
  status route started and that has not failed, and every such upload is the entry of its
  scene.
\<close>

definition cacheConsistent :: "uploader \<Rightarrow> bool" where
  "cacheConsistent u =
     ((\<forall>s p. cloudinaryUploadCache u s = Some p \<longrightarrow>
          p < length (uploads u) \<and> up_sceneId (uploads u ! p) = s
        \<and> up_origin (uploads u ! p) = StatusRoute \<and> up_promise (uploads u ! p) \<noteq> Rejected)
    \<and> (\<forall>p < length (uploads u).
          up_origin (uploads u ! p) = StatusRoute \<and> up_promise (uploads u ! p) \<noteq> Rejected \<longrightarrow>
          cloudinaryUploadCache u (up_sceneId (uploads u ! p)) = Some p))"

section \<open>Database retry (server/db.ts)\<close>












section \<open>Scenarios\<close>

text \<open>
  The concrete pools of the end-to-end scenarios: tokens with a given id and batch count,
  the settings row with the cursor at 0, and a store holding two tokens.
\<close>

definition pool_token :: "string \<Rightarrow> int \<Rightarrow> ApiToken" where
  "pool_token i c = \<lparr>token_id = i, token = ''secret-'' @ i, label = ''Token '' @ i, isActive = True,
     currentBatchCount = c, totalGenerated = c, batchStartedAt = None, lastUsedAt = None,
     requestCount = None\<rparr>"

definition pool_settings :: TokenSettings where
  "pool_settings = \<lparr>settings_id = ''settings'', lastUsedTokenIndex = Some 0,
     videosPerBatch = ''10'', batchDelaySeconds = ''20''\<rparr>"

definition pool_of :: "ApiToken list \<Rightarrow> storage" where
  "pool_of ts = \<lparr>users = [], apiTokens = ts, tokenSettings = [pool_settings], videoHistory = [],
     tokenErrorTracking = (\<lambda>_. None), tokenCooldowns = (\<lambda>_. None)\<rparr>"

text \<open>Scenario S2: the first token one short of a full batch.\<close>

definition S2_state :: storage where
  "S2_state = pool_of [pool_token ''A'' 99, pool_token ''B'' 0]"

text \<open>
  A pool of three tokens with the cursor on the second, which has served its batch.
\<close>

definition rollover_state :: storage where
  "rollover_state =
     (pool_of [pool_token ''A'' 3, pool_token ''B'' 100, pool_token ''C'' 7])
       \<lparr>tokenSettings := [pool_settings\<lparr>lastUsedTokenIndex := Some 4\<rparr>]\<rparr>"

text \<open>
  A run of the pool: dispenses and the admin's toggles of a token's active flag, all at
  one clock reading.
\<close>

datatype pool_op = Dispense | Toggle string bool

fun pool_step :: "int \<Rightarrow> pool_op \<Rightarrow> storage \<Rightarrow> storage" where
  "pool_step now Dispense s = snd (getCurrentBatchToken now s)"
| "pool_step now (Toggle tokenId active) s = snd (toggleApiTokenStatus tokenId active s)"

fun pool_run :: "int \<Rightarrow> pool_op list \<Rightarrow> storage \<Rightarrow> storage" where
  "pool_run now [] s = s"
| "pool_run now (x # xs) s = pool_run now xs (pool_step now x s)"

definition fresh_pool :: storage where
  "fresh_pool = pool_of [pool_token ''A'' 0, pool_token ''B'' 0]"

definition overfill_trace :: "pool_op list" where
  "overfill_trace = replicate 100 Dispense @ [Toggle ''A'' False] @ replicate 100 Dispense
                    @ [Toggle ''A'' True, Dispense]"

text \<open>Scenario S3: a single token, and the instants of its errors, one a second.\<close>

fun recordErrorsAt :: "int list \<Rightarrow> string \<Rightarrow> storage \<Rightarrow> storage" where
  "recordErrorsAt [] tokenId s = s"
| "recordErrorsAt (now # rest) tokenId s = recordErrorsAt rest tokenId (recordTokenError now tokenId s)"

definition S3_state :: storage where
  "S3_state = recordErrorsAt [1000, 2000, 3000, 4000, 5000, 6000, 7000, 8000, 9000] ''A''
                (pool_of [pool_token ''A'' 0])"

text \<open>
  A job of user \<open>user-1\<close>, with a given status and hosted URL, in a store of its own; and the
  server around it, with nothing queued.
\<close>

definition job_row :: "string \<Rightarrow> string option \<Rightarrow> VideoHistory" where
  "job_row st url = \<lparr>video_id = ''job-1'', userId = ''user-1'',
     prompt = ''a red kite over the sea'', aspectRatio = ''landscape'', status = st,
     videoUrl = url, title = None, tokenUsed = None, retryCount = Some 0, errorMessage = None,
     createdAt = 1000, updatedAt = 1000\<rparr>"

definition job_store :: "string \<Rightarrow> string option \<Rightarrow> storage" where
  "job_store st url = (pool_of [pool_token ''A'' 0])\<lparr>videoHistory := [job_row st url]\<rparr>"

definition job_video :: QueuedVideo where
  "job_video = \<lparr>videoId = ''job-1'', q_prompt = ''a red kite over the sea'',
     q_aspectRatio = ''landscape'', sceneNumber = 1, q_userId = ''user-1''\<rparr>"

definition job_server :: server where
  "job_server = \<lparr>store = job_store ''pending'' None, bulkQueue = [job_video],
     isProcessing = True, timers = []\<rparr>"

text \<open>
  A server with one user on the scale plan (not expired at the instants used below), no
  jobs and an idle queue.
\<close>

definition scale_user :: User where
  "scale_user = \<lparr>user_id = ''user-1'', username = ''ada'', isAdmin = False,
     planType = ''scale'', planExpiry = ExpiresAt 864000000, dailyVideoCount = 0\<rparr>"




section \<open>Properties\<close>

subsection \<open>Token pool\<close>

lemma coolingDown_iff:
  "coolingDown now s t = (case tokenCooldowns s t of None \<Rightarrow> False | Some e \<Rightarrow> e \<noteq> 0 \<and> now < e)"
  by (auto simp: coolingDown_def isTokenInCooldown_def split: option.splits)

lemma isTokenInCooldown_tables:
  "apiTokens (snd (isTokenInCooldown now t s)) = apiTokens s"
  "tokenSettings (snd (isTokenInCooldown now t s)) = tokenSettings s"
  "videoHistory (snd (isTokenInCooldown now t s)) = videoHistory s"
  "users (snd (isTokenInCooldown now t s)) = users s"
  by (auto simp: isTokenInCooldown_def split: option.splits)

lemma coolingDown_after:
  "coolingDown now (snd (isTokenInCooldown now t' s)) t = coolingDown now s t"
  by (auto simp: coolingDown_iff isTokenInCooldown_def split: option.splits)

lemma filterAvailable_Cons:
  "filterAvailable now (t # ts) s =
     (if fst (isTokenInCooldown now (token_id t) s)
      then fst (filterAvailable now ts (snd (isTokenInCooldown now (token_id t) s)))
      else t # fst (filterAvailable now ts (snd (isTokenInCooldown now (token_id t) s))),
      snd (filterAvailable now ts (snd (isTokenInCooldown now (token_id t) s))))"
  by (simp split: prod.splits)

lemma filterAvailable_fst:
  "fst (filterAvailable now ts s) = filter (\<lambda>x. \<not> coolingDown now s (token_id x)) ts"
proof (induction ts arbitrary: s)
  case Nil
  then show ?case by simp
next
  case (Cons a ts)
  have "fst (filterAvailable now ts (snd (isTokenInCooldown now (token_id a) s)))
        = filter (\<lambda>x. \<not> coolingDown now s (token_id x)) ts"
    by (simp add: Cons.IH coolingDown_after)
  then show ?case
    by (simp add: coolingDown_def filterAvailable_Cons del: filterAvailable.simps)
qed

lemma filterAvailable_snd:
  "apiTokens (snd (filterAvailable now ts s)) = apiTokens s \<and>
   tokenSettings (snd (filterAvailable now ts s)) = tokenSettings s \<and>
   videoHistory (snd (filterAvailable now ts s)) = videoHistory s \<and>
   users (snd (filterAvailable now ts s)) = users s \<and>
   (\<forall>t. coolingDown now (snd (filterAvailable now ts s)) t = coolingDown now s t)"
proof (induction ts arbitrary: s)
  case Nil
  then show ?case by simp
next
  case (Cons a ts)
  show ?case
    using Cons.IH [of "snd (isTokenInCooldown now (token_id a) s)"]
    by (simp add: isTokenInCooldown_tables coolingDown_after filterAvailable_Cons
          del: filterAvailable.simps)
qed

lemma availableTokens_eq:
  "availableTokens now s =
     filter (\<lambda>x. \<not> coolingDown now s (token_id x)) (filter isActive (apiTokens s))"
  by (simp add: availableTokens_def filterAvailable_fst)

lemma find_distinct_key:
  "distinct (map f xs) \<Longrightarrow> x \<in> set xs \<Longrightarrow> find (\<lambda>t. f t = f x) xs = Some x"
  by (induction xs) (auto simp: image_iff)

lemma find_updateWhere_same:
  "find (\<lambda>t. k t = a) xs = Some x \<Longrightarrow> (\<And>t. k (g t) = k t) \<Longrightarrow>
   find (\<lambda>t. k t = a) (updateWhere (\<lambda>t. k t = a) g xs) = Some (g x)"
  by (induction xs) (auto simp: updateWhere_def)

lemma find_updateWhere_other:
  "a \<noteq> b \<Longrightarrow> (\<And>t. k (g t) = k t) \<Longrightarrow>
   find (\<lambda>t. k t = a) (updateWhere (\<lambda>t. k t = b) g xs) = find (\<lambda>t. k t = a) xs"
  by (induction xs) (auto simp: updateWhere_def)

lemma returning_find:
  "find cond xs = Some x \<Longrightarrow> \<exists>rest. returning cond g xs = g x # rest"
  by (induction xs) (auto simp: returning_def split: if_splits)

lemma js_rem_nonneg: "0 \<le> a \<Longrightarrow> js_rem a n = a mod n"
  by (simp add: js_rem_def)

lemma useToken_id: "token_id (useToken now st t) = token_id t"
  by (simp add: useToken_def)

text \<open>
  The dispenser on a state with settings, a non-negative cursor, unique token ids and at
  least one available token: both branches, as one equation.
\<close>

lemma getCurrentBatchToken_unfold:
  assumes st: "tokenSettings s = st # rest"
    and av: "availableTokens now s = av"
    and ne: "av \<noteq> []"
    and cursor: "currentIndexOf st = cursor" "0 \<le> cursor"
    and dist: "distinct (map token_id (apiTokens s))"
    and s1: "s1 = snd (filterAvailable now (filter isActive (apiTokens s)) s)"
    and cur: "cur = av ! (nat cursor mod length av)"
    and nxt: "nxt = av ! (nat (cursor + 1) mod length av)"
  shows "getCurrentBatchToken now s =
    (if currentBatchCount cur \<ge> BATCH_SIZE then
       (let tbl1 = updateWhere (\<lambda>t. token_id t = token_id cur) (\<lambda>t. t\<lparr>currentBatchCount := 0\<rparr>) (apiTokens s);
            nxt0 = (if token_id nxt = token_id cur then cur\<lparr>currentBatchCount := 0\<rparr> else nxt)
        in (Inr (Some (useToken now (Some now) nxt0)),
           s1\<lparr>apiTokens := updateWhere (\<lambda>t. token_id t = token_id nxt) (useToken now (Some now)) tbl1,
              tokenSettings := updateWhere (\<lambda>r. settings_id r = settings_id st)
                   (\<lambda>r. r\<lparr>lastUsedTokenIndex := Some ((cursor + 1) mod int (length av))\<rparr>) (tokenSettings s)\<rparr>))
     else
       (let started = (case batchStartedAt cur of None \<Rightarrow> Some now | Some b \<Rightarrow> Some b)
        in (Inr (Some (useToken now started cur)),
            s1\<lparr>apiTokens := updateWhere (\<lambda>t. token_id t = token_id cur) (useToken now started) (apiTokens s)\<rparr>)))"
proof -
  let ?all = "filter isActive (apiTokens s)"
  have fa: "filterAvailable now ?all s = (av, s1)"
    using av s1 by (simp add: availableTokens_def prod_eq_iff)
  have all_ne: "?all \<noteq> []"
  proof
    assume "?all = []"
    then have "av = []" using av by (simp add: availableTokens_eq)
    then show False using ne by simp
  qed
  have len: "0 < length av" using ne by simp
  have tables: "apiTokens s1 = apiTokens s" "tokenSettings s1 = tokenSettings s"
    using filterAvailable_snd [of now ?all s] s1 by simp_all
  have idx: "js_rem cursor (int (length av)) = cursor mod int (length av)"
       "js_rem (cursor + 1) (int (length av)) = (cursor + 1) mod int (length av)"
    using cursor(2) by (simp_all add: js_rem_nonneg)
  have ipos: "0 < int (length av)" using ne by simp
  have nn: "\<not> cursor mod int (length av) < 0" "\<not> (cursor + 1) mod int (length av) < 0"
    using pos_mod_sign [OF ipos, of cursor] pos_mod_sign [OF ipos, of "cursor + 1"]
    by linarith+
  have natidx: "nat (cursor mod int (length av)) = nat cursor mod length av"
       "nat ((cursor + 1) mod int (length av)) = nat (cursor + 1) mod length av"
    using cursor(2) len by (simp_all add: nat_mod_distrib)
  have cur_in: "cur \<in> set av" and nxt_in: "nxt \<in> set av"
    using cur nxt len by simp_all
  have av_sub: "set av \<subseteq> set (apiTokens s)" using av by (auto simp: availableTokens_eq)
  have fcur: "find (\<lambda>t. token_id t = token_id cur) (apiTokens s) = Some cur"
    using find_distinct_key [OF dist] cur_in av_sub by blast
  have fnxt: "find (\<lambda>t. token_id t = token_id nxt) (apiTokens s) = Some nxt"
    using find_distinct_key [OF dist] nxt_in av_sub by blast
  show ?thesis
  proof (cases "currentBatchCount cur \<ge> BATCH_SIZE")
    case False
    obtain r where r: "returning (\<lambda>t. token_id t = token_id cur)
        (useToken now (case batchStartedAt cur of None \<Rightarrow> Some now | Some b \<Rightarrow> Some b)) (apiTokens s)
        = useToken now (case batchStartedAt cur of None \<Rightarrow> Some now | Some b \<Rightarrow> Some b) cur # r"
      using returning_find [OF fcur] by blast
    show ?thesis
      using False
      by (simp add: getCurrentBatchToken_def getTokenById_def st fa all_ne ne cursor(1) idx nn
            natidx tables cur [symmetric] fcur r Let_def)
  next
    case True
    let ?tbl1 = "updateWhere (\<lambda>t. token_id t = token_id cur) (\<lambda>t. t\<lparr>currentBatchCount := 0\<rparr>) (apiTokens s)"
    let ?nxt0 = "if token_id nxt = token_id cur then cur\<lparr>currentBatchCount := 0\<rparr> else nxt"
    have fn1: "find (\<lambda>t. token_id t = token_id nxt) ?tbl1 = Some ?nxt0"
    proof (cases "token_id nxt = token_id cur")
      case True
      have "find (\<lambda>t. token_id t = token_id cur) ?tbl1 = Some (cur\<lparr>currentBatchCount := 0\<rparr>)"
        by (rule find_updateWhere_same [OF fcur]) simp
      then show ?thesis using True by simp
    next
      case False
      have "find (\<lambda>t. token_id t = token_id nxt) ?tbl1
            = find (\<lambda>t. token_id t = token_id nxt) (apiTokens s)"
        by (rule find_updateWhere_other) (use False in simp_all)
      then show ?thesis using False fnxt by simp
    qed
    have id0: "token_id ?nxt0 = token_id nxt" by simp
    obtain r where r: "returning (\<lambda>t. token_id t = token_id nxt) (useToken now (Some now)) ?tbl1
        = useToken now (Some now) ?nxt0 # r"
      using returning_find [OF fn1] by blast
    show ?thesis
      using True
      by (simp add: getCurrentBatchToken_def getTokenById_def st fa all_ne ne cursor(1) idx nn
            natidx tables cur [symmetric] nxt [symmetric] fcur fn1 r Let_def id0
            del: if_split cong: if_cong)
  qed
qed


lemma distinct_key_eq:
  "distinct (map f xs) \<Longrightarrow> x \<in> set xs \<Longrightarrow> y \<in> set xs \<Longrightarrow> f x = f y \<Longrightarrow> x = y"
  by (auto simp: distinct_map dest: inj_onD)

lemma available_in_table: "x \<in> set (availableTokens now s) \<Longrightarrow> x \<in> set (apiTokens s)"
  by (simp add: availableTokens_eq)

lemma getTokenById_available:
  "distinct (map token_id (apiTokens s)) \<Longrightarrow> x \<in> set (availableTokens now s) \<Longrightarrow>
   getTokenById (token_id x) s = Some x"
  unfolding getTokenById_def
  by (rule find_distinct_key) (simp_all add: available_in_table)

lemma js_rem_index:
  assumes "0 < n" and "\<not> js_rem c (int n) < 0"
  shows "nat (js_rem c (int n)) < n"
proof (cases "0 \<le> c")
  case True
  then have "js_rem c (int n) = c mod int n" by (simp add: js_rem_def)
  moreover have "c mod int n < int n" using assms(1) by simp
  moreover have "0 \<le> c mod int n" using assms(1) by simp
  ultimately show ?thesis by linarith
next
  case False
  then have e: "js_rem c (int n) = - ((- c) mod int n)" by (simp add: js_rem_def)
  have "0 \<le> (- c) mod int n" using assms(1) by simp
  with e assms(2) have "js_rem c (int n) = 0" by linarith
  then show ?thesis using assms(1) by simp
qed

text \<open>
  The only write of the cursor. After \<^verbatim>\<open>getCurrentBatchToken\<close> the settings table is as it
  was, or the rows with the id of the first row have a new cursor, which is a position of
  the list of available tokens.
\<close>

lemma getCurrentBatchToken_writes_position:
  "tokenSettings (snd (getCurrentBatchToken now s)) = tokenSettings s
   \<or> (\<exists>settings rest j. tokenSettings s = settings # rest
         \<and> 0 \<le> j \<and> j < int (length (availableTokens now s))
         \<and> tokenSettings (snd (getCurrentBatchToken now s)) =
             updateWhere (\<lambda>r. settings_id r = settings_id settings)
               (\<lambda>r. r\<lparr>lastUsedTokenIndex := Some j\<rparr>) (tokenSettings s))"
proof (cases "tokenSettings s")
  case Nil
  then show ?thesis by (simp add: getCurrentBatchToken_def)
next
  case (Cons settings rest)
  let ?all = "filter isActive (apiTokens s)"
  define av where "av = availableTokens now s"
  define s1 where "s1 = snd (filterAvailable now ?all s)"
  define j where "j = js_rem (currentIndexOf settings + 1) (int (length av))"
  have fa: "filterAvailable now ?all s = (av, s1)"
    by (simp add: availableTokens_def av_def s1_def)
  have tables: "tokenSettings s1 = tokenSettings s"
    using filterAvailable_snd [of now ?all s] by (simp add: s1_def)
  have pos: "av \<noteq> [] \<Longrightarrow> \<not> j < 0 \<Longrightarrow> 0 \<le> j \<and> j < int (length av)"
    using js_rem_index [of "length av" "currentIndexOf settings + 1"] by (simp add: j_def)
  have "tokenSettings (snd (getCurrentBatchToken now s)) = tokenSettings s
        \<or> (av \<noteq> [] \<and> \<not> j < 0
            \<and> tokenSettings (snd (getCurrentBatchToken now s)) =
                updateWhere (\<lambda>r. settings_id r = settings_id settings)
                  (\<lambda>r. r\<lparr>lastUsedTokenIndex := Some j\<rparr>) (tokenSettings s))"
    using Cons fa tables
    by (simp add: getCurrentBatchToken_def Let_def j_def [symmetric]
          split: option.splits list.splits)
  then show ?thesis
    using pos Cons unfolding av_def by blast
qed

lemma getCurrentBatchToken_cursor_nonneg:
  assumes "list_all (\<lambda>r. 0 \<le> currentIndexOf r) (tokenSettings s)"
  shows "list_all (\<lambda>r. 0 \<le> currentIndexOf r) (tokenSettings (snd (getCurrentBatchToken now s)))"
  using getCurrentBatchToken_writes_position [of now s] assms
  by (auto simp: list_all_iff updateWhere_def currentIndexOf_def)

lemma pool_run_cursor_nonneg:
  "list_all (\<lambda>r. 0 \<le> currentIndexOf r) (tokenSettings s) \<Longrightarrow>
   list_all (\<lambda>r. 0 \<le> currentIndexOf r) (tokenSettings (pool_run now ops s))"
proof (induction ops arbitrary: s)
  case Nil
  then show ?case by simp
next
  case (Cons x xs)
  have "list_all (\<lambda>r. 0 \<le> currentIndexOf r) (tokenSettings (pool_step now x s))"
    using Cons.prems getCurrentBatchToken_cursor_nonneg [of s now]
    by (cases x) (simp_all add: toggleApiTokenStatus_def)
  then show ?case using Cons.IH by simp
qed

text \<open>
  What the condition on the cursor excludes: a negative cursor that is not a multiple of
  the number of available tokens is a negative index into the list, and the dispense
  throws.
\<close>

lemma getCurrentBatchToken_negative_cursor:
  assumes "tokenSettings s = settings # rest" and "availableTokens now s \<noteq> []"
    and "js_rem (currentIndexOf settings) (int (length (availableTokens now s))) < 0"
  shows "fst (getCurrentBatchToken now s) = Inl TypeError"
proof -
  let ?all = "filter isActive (apiTokens s)"
  have ne: "?all \<noteq> []"
  proof
    assume "?all = []"
    then have "availableTokens now s = []" by (simp add: availableTokens_eq)
    then show False using assms(2) by simp
  qed
  obtain av s1 where fa: "filterAvailable now ?all s = (av, s1)" by (cases "filterAvailable now ?all s")
  then have av: "av = availableTokens now s" by (simp add: availableTokens_def)
  show ?thesis
    using assms ne fa av by (simp add: getCurrentBatchToken_def Let_def)
qed

text \<open>
  Claim C1. In a store with a settings row, unique token ids and at least one active token
  that is not in cooldown, let \<open>c\<close> be the cursor the settings row stores
  (\<^verbatim>\<open>lastUsedTokenIndex\<close>, 0 when it is null), \<open>n\<close> the number of available tokens, \<open>cur\<close>
  the available token at position \<open>c mod n\<close> and \<open>nxt\<close> the one at \<open>(c + 1) mod n\<close>. If \<open>cur\<close>
  has served \<open>BATCH_SIZE\<close> dispenses, \<^verbatim>\<open>getCurrentBatchToken\<close> resets its counter to 0,
  writes the cursor \<open>(c + 1) mod n\<close>, a position of the list, to the settings row and
  returns \<open>nxt\<close> with its batch counter and its total incremented (from 0 when \<open>nxt\<close> is
  \<open>cur\<close> itself, the only available token). Otherwise it returns \<open>cur\<close> with both counters
  incremented and leaves the cursor alone. No other token changes.
  The stored cursor is not negative: that is the spec's invariant of the settings row,
  and by \<open>getCurrentBatchToken_writes_position\<close> the dispenser, the only writer of the
  column in the sources, keeps it.
\<close>

theorem getCurrentBatchToken_dispense:
  fixes now c :: int and s s' :: storage and n :: nat and cur nxt :: ApiToken
    and settings :: TokenSettings
  defines "c \<equiv> (case lastUsedTokenIndex settings of None \<Rightarrow> 0 | Some i \<Rightarrow> i)"
    and "n \<equiv> length (availableTokens now s)"
    and "cur \<equiv> availableTokens now s ! (nat c mod n)"
    and "nxt \<equiv> availableTokens now s ! (nat (c + 1) mod n)"
    and "s' \<equiv> snd (getCurrentBatchToken now s)"
  assumes settings: "tokenSettings s = settings # rest"
    and cursor: "0 \<le> c"
    and dist: "distinct (map token_id (apiTokens s))"
    and avail: "availableTokens now s \<noteq> []"
  shows
    "if BATCH_SIZE \<le> currentBatchCount cur then
       (\<exists>r. fst (getCurrentBatchToken now s) = Inr (Some r)
          \<and> r = nxt\<lparr>currentBatchCount :=
                       (if token_id nxt = token_id cur then 0 else currentBatchCount nxt) + 1,
                     totalGenerated := totalGenerated nxt + 1,
                     batchStartedAt := Some now, lastUsedAt := Some now\<rparr>
          \<and> getTokenById (token_id nxt) s' = Some r
          \<and> (token_id nxt \<noteq> token_id cur \<longrightarrow>
               getTokenById (token_id cur) s' = Some (cur\<lparr>currentBatchCount := 0\<rparr>))
          \<and> (\<exists>rest'. tokenSettings s' =
                 settings\<lparr>lastUsedTokenIndex := Some ((c + 1) mod int n)\<rparr> # rest')
          \<and> 0 \<le> (c + 1) mod int n \<and> (c + 1) mod int n < int n
          \<and> (\<forall>tid. tid \<noteq> token_id cur \<and> tid \<noteq> token_id nxt \<longrightarrow>
                 getTokenById tid s' = getTokenById tid s))
     else
       (\<exists>r. fst (getCurrentBatchToken now s) = Inr (Some r)
          \<and> r = cur\<lparr>currentBatchCount := currentBatchCount cur + 1,
                     totalGenerated := totalGenerated cur + 1,
                     batchStartedAt := (case batchStartedAt cur of None \<Rightarrow> Some now
                                        | Some b \<Rightarrow> Some b),
                     lastUsedAt := Some now\<rparr>
          \<and> getTokenById (token_id cur) s' = Some r
          \<and> tokenSettings s' = tokenSettings s
          \<and> (\<forall>tid. tid \<noteq> token_id cur \<longrightarrow> getTokenById tid s' = getTokenById tid s))"
proof -
  define s1 where "s1 = snd (filterAvailable now (filter isActive (apiTokens s)) s)"
  have tables: "apiTokens s1 = apiTokens s" "tokenSettings s1 = tokenSettings s"
    using filterAvailable_snd [of now "filter isActive (apiTokens s)" s] s1_def by simp_all
  have npos: "0 < n" using avail by (simp add: n_def)
  have cur_in: "cur \<in> set (availableTokens now s)" and nxt_in: "nxt \<in> set (availableTokens now s)"
    using npos by (simp_all add: cur_def nxt_def n_def)
  have fcur: "find (\<lambda>t. token_id t = token_id cur) (apiTokens s) = Some cur"
    using getTokenById_available [OF dist cur_in] by (simp add: getTokenById_def)
  have fnxt: "find (\<lambda>t. token_id t = token_id nxt) (apiTokens s) = Some nxt"
    using getTokenById_available [OF dist nxt_in] by (simp add: getTokenById_def)
  have same: "token_id nxt = token_id cur \<Longrightarrow> nxt = cur"
    using distinct_key_eq [OF dist available_in_table [OF nxt_in] available_in_table [OF cur_in]]
    by simp
  have curE: "cur = availableTokens now s ! (nat c mod length (availableTokens now s))"
    and nxtE: "nxt = availableTokens now s ! (nat (c + 1) mod length (availableTokens now s))"
    by (simp_all add: cur_def nxt_def n_def)
  have stored: "currentIndexOf settings = c"
    by (simp add: currentIndexOf_def c_def)
  have pos: "0 \<le> (c + 1) mod int n \<and> (c + 1) mod int n < int n"
    using npos by simp
  note eq = getCurrentBatchToken_unfold [OF settings refl avail stored cursor dist s1_def curE nxtE,
      unfolded n_def [symmetric]]
  show ?thesis
  proof (cases "BATCH_SIZE \<le> currentBatchCount cur")
    case False
    let ?started = "case batchStartedAt cur of None \<Rightarrow> Some now | Some b \<Rightarrow> Some b"
    have res: "getCurrentBatchToken now s =
        (Inr (Some (useToken now ?started cur)),
         s1\<lparr>apiTokens := updateWhere (\<lambda>t. token_id t = token_id cur) (useToken now ?started)
                            (apiTokens s)\<rparr>)"
      using eq False by (simp add: Let_def)
    have a: "getTokenById (token_id cur) s' = Some (useToken now ?started cur)"
      unfolding s'_def res getTokenById_def
      using find_updateWhere_same [OF fcur, of "useToken now ?started"]
      by (simp add: useToken_id)
    have b: "tokenSettings s' = tokenSettings s"
      unfolding s'_def res by (simp add: tables)
    have c: "\<forall>tid. tid \<noteq> token_id cur \<longrightarrow> getTokenById tid s' = getTokenById tid s"
    proof (intro allI impI)
      fix tid assume "tid \<noteq> token_id cur"
      then have "find (\<lambda>t. token_id t = tid)
                   (updateWhere (\<lambda>t. token_id t = token_id cur) (useToken now ?started) (apiTokens s))
                 = find (\<lambda>t. token_id t = tid) (apiTokens s)"
        by (intro find_updateWhere_other) (simp_all add: useToken_id)
      then show "getTokenById tid s' = getTokenById tid s"
        unfolding s'_def res getTokenById_def by simp
    qed
    have r: "useToken now ?started cur =
             cur\<lparr>currentBatchCount := currentBatchCount cur + 1,
                 totalGenerated := totalGenerated cur + 1,
                 batchStartedAt := ?started, lastUsedAt := Some now\<rparr>"
      by (simp add: useToken_def)
    show ?thesis
      using False a b c r res by simp
  next
    case True
    let ?tbl1 = "updateWhere (\<lambda>t. token_id t = token_id cur) (\<lambda>t. t\<lparr>currentBatchCount := 0\<rparr>) (apiTokens s)"
    let ?nxt0 = "if token_id nxt = token_id cur then cur\<lparr>currentBatchCount := 0\<rparr> else nxt"
    let ?use = "useToken now (Some now)"
    let ?st' = "updateWhere (\<lambda>r. settings_id r = settings_id settings)
                   (\<lambda>r. r\<lparr>lastUsedTokenIndex := Some ((c + 1) mod int n)\<rparr>)
                   (tokenSettings s)"
    have res: "getCurrentBatchToken now s =
        (Inr (Some (?use ?nxt0)),
         s1\<lparr>apiTokens := updateWhere (\<lambda>t. token_id t = token_id nxt) ?use ?tbl1,
            tokenSettings := ?st'\<rparr>)"
      using eq True by (simp add: Let_def del: if_split cong: if_cong)
    have fn1: "find (\<lambda>t. token_id t = token_id nxt) ?tbl1 = Some ?nxt0"
    proof (cases "token_id nxt = token_id cur")
      case True
      have "find (\<lambda>t. token_id t = token_id cur) ?tbl1 = Some (cur\<lparr>currentBatchCount := 0\<rparr>)"
        by (rule find_updateWhere_same [OF fcur]) simp
      then show ?thesis using True by simp
    next
      case False
      have "find (\<lambda>t. token_id t = token_id nxt) ?tbl1
            = find (\<lambda>t. token_id t = token_id nxt) (apiTokens s)"
        by (rule find_updateWhere_other) (use False in simp_all)
      then show ?thesis using False fnxt by simp
    qed
    have a: "getTokenById (token_id nxt) s' = Some (?use ?nxt0)"
      unfolding s'_def res getTokenById_def
      using find_updateWhere_same [OF fn1, of ?use] by (simp add: useToken_id)
    have b: "token_id nxt \<noteq> token_id cur \<longrightarrow>
               getTokenById (token_id cur) s' = Some (cur\<lparr>currentBatchCount := 0\<rparr>)"
    proof
      assume ne: "token_id nxt \<noteq> token_id cur"
      have "find (\<lambda>t. token_id t = token_id cur)
              (updateWhere (\<lambda>t. token_id t = token_id nxt) ?use ?tbl1)
            = find (\<lambda>t. token_id t = token_id cur) ?tbl1"
        by (rule find_updateWhere_other) (use ne in \<open>simp_all add: useToken_id\<close>)
      also have "\<dots> = Some (cur\<lparr>currentBatchCount := 0\<rparr>)"
        by (rule find_updateWhere_same [OF fcur]) simp
      finally show "getTokenById (token_id cur) s' = Some (cur\<lparr>currentBatchCount := 0\<rparr>)"
        unfolding s'_def res getTokenById_def by simp
    qed
    have c': "\<exists>rest'. tokenSettings s' =
                 settings\<lparr>lastUsedTokenIndex := Some ((c + 1) mod int n)\<rparr> # rest'"
      unfolding s'_def res by (simp add: settings updateWhere_def)
    have d: "\<forall>tid. tid \<noteq> token_id cur \<and> tid \<noteq> token_id nxt \<longrightarrow>
                 getTokenById tid s' = getTokenById tid s"
    proof (intro allI impI)
      fix tid assume t: "tid \<noteq> token_id cur \<and> tid \<noteq> token_id nxt"
      have "find (\<lambda>t. token_id t = tid) (updateWhere (\<lambda>t. token_id t = token_id nxt) ?use ?tbl1)
            = find (\<lambda>t. token_id t = tid) ?tbl1"
        by (rule find_updateWhere_other) (use t in \<open>simp_all add: useToken_id\<close>)
      also have "\<dots> = find (\<lambda>t. token_id t = tid) (apiTokens s)"
        by (rule find_updateWhere_other) (use t in simp_all)
      finally show "getTokenById tid s' = getTokenById tid s"
        unfolding s'_def res getTokenById_def by simp
    qed
    have r: "?use ?nxt0 =
             nxt\<lparr>currentBatchCount :=
                   (if token_id nxt = token_id cur then 0 else currentBatchCount nxt) + 1,
                 totalGenerated := totalGenerated nxt + 1,
                 batchStartedAt := Some now, lastUsedAt := Some now\<rparr>"
      using same by (cases "token_id nxt = token_id cur") (simp_all add: useToken_def)
    show ?thesis
      using True a b c' d r res pos by simp
  qed
qed


lemma returning_Cons_D:
  "returning cond f tbl = u # rest \<Longrightarrow> \<exists>x \<in> set tbl. cond x \<and> u = f x"
proof -
  assume a: "returning cond f tbl = u # rest"
  then have "u \<in> set (map f (filter cond tbl))" by (simp add: returning_def)
  then show ?thesis by auto
qed

lemma find_Some_D: "find P xs = Some x \<Longrightarrow> P x"
  by (auto simp: find_Some_iff)

lemma getCurrentBatchToken_result_available:
  assumes "fst (getCurrentBatchToken now s) = Inr (Some tk)"
  shows "\<exists>x \<in> set (availableTokens now s). token_id tk = token_id x"
proof (cases "tokenSettings s")
  case Nil
  then show ?thesis using assms by (simp add: getCurrentBatchToken_def)
next
  case (Cons settings rest)
  let ?all = "filter isActive (apiTokens s)"
  define av where "av = availableTokens now s"
  define s1 where "s1 = snd (filterAvailable now ?all s)"
  let ?av = av
  let ?s1 = s1
  let ?n = "length ?av"
  have fa: "filterAvailable now ?all s = (?av, ?s1)"
    by (simp add: availableTokens_def av_def s1_def)
  have goal: "(\<exists>x \<in> set av. token_id tk = token_id x) \<Longrightarrow> ?thesis"
    by (simp add: av_def)
  show ?thesis
  proof (cases "?all = [] \<or> ?av = []")
    case True
    show ?thesis
    proof (cases "?all = []")
      case True
      then show ?thesis using assms Cons by (simp add: getCurrentBatchToken_def Let_def)
    next
      case False
      then have "av = []" using True by simp
      then show ?thesis using assms Cons fa False
        by (simp add: getCurrentBatchToken_def Let_def)
    qed
  next
    case False
    then have ne: "?all \<noteq> []" "?av \<noteq> []" by simp_all
    have npos: "0 < ?n" using ne by simp
    let ?c = "currentIndexOf settings"
    show ?thesis
    proof (cases "js_rem ?c (int ?n) < 0")
      case True
      then show ?thesis using assms Cons fa ne
        by (simp add: getCurrentBatchToken_def Let_def)
    next
      case i1: False
      let ?cur = "?av ! nat (js_rem ?c (int ?n))"
      have cur_in: "?cur \<in> set ?av" using js_rem_index [OF npos i1] by simp
      show ?thesis
      proof (cases "getTokenById (token_id ?cur) ?s1")
        case None
        then show ?thesis using assms Cons fa ne i1
          by (simp add: getCurrentBatchToken_def Let_def)
      next
        case (Some currentToken)
        then have cid: "token_id currentToken = token_id ?cur"
          by (auto simp: getTokenById_def dest: find_Some_D)
        show ?thesis
        proof (cases "currentBatchCount currentToken \<ge> BATCH_SIZE")
          case False
          let ?started = "case batchStartedAt currentToken of None \<Rightarrow> Some now | Some b \<Rightarrow> Some b"
          from assms Cons fa ne i1 Some False
          obtain rest' where "returning (\<lambda>t. token_id t = token_id currentToken)
                 (useToken now ?started) (apiTokens ?s1) = tk # rest'"
            by (auto simp: getCurrentBatchToken_def Let_def split: list.splits)
          from returning_Cons_D [OF this] have "token_id tk = token_id currentToken"
            by (auto simp: useToken_id)
          then show ?thesis using cid cur_in by (intro goal) auto
        next
          case True
          show ?thesis
          proof (cases "js_rem (?c + 1) (int ?n) < 0")
            case True
            then show ?thesis using assms Cons fa ne i1 Some \<open>currentBatchCount currentToken \<ge> BATCH_SIZE\<close>
              by (simp add: getCurrentBatchToken_def Let_def)
          next
            case i2: False
            let ?nxt = "?av ! nat (js_rem (?c + 1) (int ?n))"
            have nxt_in: "?nxt \<in> set ?av" using js_rem_index [OF npos i2] by simp
            let ?tbl1 = "updateWhere (\<lambda>t. token_id t = token_id currentToken)
                                 (\<lambda>t. t\<lparr>currentBatchCount := 0\<rparr>) (apiTokens ?s1)"
            show ?thesis
            proof (cases "getTokenById (token_id ?nxt) (?s1\<lparr>apiTokens := ?tbl1\<rparr>)")
              case None
              then show ?thesis using assms Cons fa ne i1 i2 Some True
                by (simp add: getCurrentBatchToken_def Let_def)
            next
              case (Some nextToken)
              then have nid: "token_id nextToken = token_id ?nxt"
                by (auto simp: getTokenById_def dest: find_Some_D)
              from assms Cons fa ne i1 i2 \<open>getTokenById (token_id ?cur) ?s1 = Some currentToken\<close> True Some
              obtain rest' where "returning (\<lambda>t. token_id t = token_id nextToken)
                 (useToken now (Some now)) ?tbl1 = tk # rest'"
                by (auto simp: getCurrentBatchToken_def Let_def split: list.splits)
              from returning_Cons_D [OF this] have "token_id tk = token_id nextToken"
                by (auto simp: useToken_id)
              then show ?thesis using nid nxt_in by (intro goal) auto
            qed
          qed
        qed
      qed
    qed
  qed
qed

lemma getCurrentBatchToken_not_cooling:
  assumes "fst (getCurrentBatchToken now s) = Inr (Some tk)"
  shows "\<not> coolingDown now s (token_id tk)"
  using getCurrentBatchToken_result_available [OF assms]
  by (auto simp: availableTokens_eq)

lemma firstUsable_Cons:
  "firstUsable now (t # ts) s =
     (if fst (isTokenInCooldown now (token_id t) s)
      then firstUsable now ts (snd (isTokenInCooldown now (token_id t) s))
      else if getRecentErrorCount now (token_id t) (snd (isTokenInCooldown now (token_id t) s))
              \<ge> SAFE_THRESHOLD
           then firstUsable now ts (snd (isTokenInCooldown now (token_id t) s))
           else (Some t, snd (isTokenInCooldown now (token_id t) s)))"
  by (simp split: prod.splits)

lemma firstUsable_not_cooling:
  "fst (firstUsable now ts s) = Some tk \<Longrightarrow> tk \<in> set ts \<and> \<not> coolingDown now s (token_id tk)"
proof (induction ts arbitrary: s)
  case Nil
  then show ?case by simp
next
  case (Cons a ts)
  let ?s1 = "snd (isTokenInCooldown now (token_id a) s)"
  show ?case
  proof (cases "fst (firstUsable now (a # ts) s) = fst (firstUsable now ts ?s1)")
    case True
    then have "tk \<in> set ts \<and> \<not> coolingDown now ?s1 (token_id tk)"
      using Cons.IH [of ?s1] Cons.prems by simp
    then show ?thesis by (simp add: coolingDown_after)
  next
    case False
    then have "\<not> fst (isTokenInCooldown now (token_id a) s)" and "fst (firstUsable now (a # ts) s) = Some a"
      by (auto simp: firstUsable_Cons simp del: firstUsable.simps split: if_splits)
    then show ?thesis using Cons.prems by (simp add: coolingDown_def)
  qed
qed

lemma getNextRotationToken_not_cooling:
  "fst (getNextRotationToken physical now s) = Some tk \<Longrightarrow> \<not> coolingDown now s (token_id tk)"
  unfolding getNextRotationToken_def by (drule firstUsable_not_cooling) simp


lemma recordTokenError_maps:
  "tokenErrorTracking (recordTokenError now t s) t =
     Some (filter (\<lambda>ts. now - ts < ERROR_WINDOW_MS) (errorsOf s t @ [now]))"
  "tokenCooldowns (recordTokenError now t s) t =
     (if ERROR_THRESHOLD \<le> int (length (filter (\<lambda>ts. now - ts < ERROR_WINDOW_MS) (errorsOf s t @ [now])))
      then Some (now + COOLDOWN_DURATION_MS) else tokenCooldowns s t)"
  by (simp_all add: recordTokenError_def Let_def)

text \<open>
  Claim C3. \<^verbatim>\<open>recordTokenError\<close> at instant \<open>now\<close> stores the token's errors of the last
  20 minutes with \<open>now\<close> appended, and when these are 10 or more it sets the token's
  cooldown end to \<open>now\<close> plus 2 hours. \<^verbatim>\<open>isTokenInCooldown\<close> answers true exactly when
  a cooldown end is recorded and lies in the future; at or after the end it deletes the
  cooldown entry and the token's error history and answers false. While it answers true,
  neither \<^verbatim>\<open>getCurrentBatchToken\<close> nor \<^verbatim>\<open>getNextRotationToken\<close> returns the token
  (in whatever order the database delivers tokens of equal last use); in
  particular not during the 2 hours after the error that reached the threshold.
  (The clock is that of \<^verbatim>\<open>Date.now()\<close>, not negative; a recorded cooldown end is never
  the falsy number 0.)
\<close>

theorem token_error_cooldown:
  fixes now now' :: int and s s' s1 :: storage and t :: string and recent :: "int list"
    and physical :: "ApiToken \<Rightarrow> nat"
  defines "recent \<equiv> filter (\<lambda>timestamp. now - timestamp < ERROR_WINDOW_MS) (errorsOf s t @ [now])"
    and "s1 \<equiv> recordTokenError now t s"
  assumes clock: "0 \<le> now"
    and wf: "tokenCooldowns s' t \<noteq> Some 0"
  shows
    "tokenErrorTracking s1 t = Some recent
     \<and> tokenCooldowns s1 t =
         (if ERROR_THRESHOLD \<le> int (length recent) then Some (now + COOLDOWN_DURATION_MS)
          else tokenCooldowns s t)
     \<and> fst (isTokenInCooldown now' t s') = (\<exists>e. tokenCooldowns s' t = Some e \<and> now' < e)
     \<and> (\<forall>e. tokenCooldowns s' t = Some e \<and> e \<le> now' \<longrightarrow>
           isTokenInCooldown now' t s' =
             (False, s'\<lparr>tokenErrorTracking := (tokenErrorTracking s')(t := None),
                        tokenCooldowns := (tokenCooldowns s')(t := None)\<rparr>))
     \<and> (fst (isTokenInCooldown now' t s') \<longrightarrow>
           (\<forall>tk. fst (getCurrentBatchToken now' s') = Inr (Some tk) \<longrightarrow> token_id tk \<noteq> t)
         \<and> (\<forall>tk. fst (getNextRotationToken physical now' s') = Some tk \<longrightarrow> token_id tk \<noteq> t))
     \<and> (ERROR_THRESHOLD \<le> int (length recent) \<and> now \<le> now' \<and> now' < now + COOLDOWN_DURATION_MS \<longrightarrow>
           fst (isTokenInCooldown now' t s1)
         \<and> (\<forall>tk. fst (getCurrentBatchToken now' s1) = Inr (Some tk) \<longrightarrow> token_id tk \<noteq> t)
         \<and> (\<forall>tk. fst (getNextRotationToken physical now' s1) = Some tk \<longrightarrow> token_id tk \<noteq> t))"
proof -
  have a: "tokenErrorTracking s1 t = Some recent"
    by (simp add: s1_def recent_def recordTokenError_maps)
  have b: "tokenCooldowns s1 t =
         (if ERROR_THRESHOLD \<le> int (length recent) then Some (now + COOLDOWN_DURATION_MS)
          else tokenCooldowns s t)"
    by (simp add: s1_def recent_def recordTokenError_maps)
  have c: "fst (isTokenInCooldown now' t s') = (\<exists>e. tokenCooldowns s' t = Some e \<and> now' < e)"
    using wf by (auto simp: isTokenInCooldown_def split: option.splits)
  have d: "\<forall>e. tokenCooldowns s' t = Some e \<and> e \<le> now' \<longrightarrow>
           isTokenInCooldown now' t s' =
             (False, s'\<lparr>tokenErrorTracking := (tokenErrorTracking s')(t := None),
                        tokenCooldowns := (tokenCooldowns s')(t := None)\<rparr>)"
    using wf by (auto simp: isTokenInCooldown_def)
  have excl: "\<And>st. fst (isTokenInCooldown now' t st) \<Longrightarrow>
           (\<forall>tk. fst (getCurrentBatchToken now' st) = Inr (Some tk) \<longrightarrow> token_id tk \<noteq> t)
         \<and> (\<forall>tk. fst (getNextRotationToken physical now' st) = Some tk \<longrightarrow> token_id tk \<noteq> t)"
  proof -
    fix st assume cd: "fst (isTokenInCooldown now' t st)"
    then have cd': "coolingDown now' st t" by (simp add: coolingDown_def)
    show "(\<forall>tk. fst (getCurrentBatchToken now' st) = Inr (Some tk) \<longrightarrow> token_id tk \<noteq> t)
         \<and> (\<forall>tk. fst (getNextRotationToken physical now' st) = Some tk \<longrightarrow> token_id tk \<noteq> t)"
      using cd' getCurrentBatchToken_not_cooling [of now' st]
        getNextRotationToken_not_cooling [of physical now' st]
      by blast
  qed
  have f: "ERROR_THRESHOLD \<le> int (length recent) \<and> now \<le> now' \<and> now' < now + COOLDOWN_DURATION_MS
           \<longrightarrow> fst (isTokenInCooldown now' t s1)"
    using clock b by (auto simp: isTokenInCooldown_def COOLDOWN_DURATION_MS_def)
  show ?thesis
    using a b c d excl [of s'] excl [of s1] f by blast
qed


lemmas pool_eval =
  pool_of_def pool_token_def pool_settings_def availableTokens_def isTokenInCooldown_def
  currentIndexOf_def BATCH_SIZE_def getTokenById_def

lemmas dispense_eval =
  getCurrentBatchToken_def js_rem_def updateWhere_def returning_def useToken_def Let_def

text \<open>
  The hypotheses of C1 hold in scenario S2 (token A at 99, token B at 0, stored cursor 0),
  where the dispense returns A with count 100 and leaves the cursor alone; and in a pool of
  three tokens A, B, C with the stored cursor 4, which is on B, a token that has served its
  batch: the dispense there resets B, returns C with its count raised from 7 to 8, and
  stores the cursor 2.
\<close>

theorem getCurrentBatchToken_dispense_witness:
  "tokenSettings S2_state = pool_settings # []
   \<and> (0::int) \<le> (case lastUsedTokenIndex pool_settings of None \<Rightarrow> 0 | Some i \<Rightarrow> i)
   \<and> distinct (map token_id (apiTokens S2_state))
   \<and> availableTokens 1000 S2_state \<noteq> []
   \<and> fst (getCurrentBatchToken 1000 S2_state) =
       Inr (Some ((pool_token ''A'' 100)\<lparr>batchStartedAt := Some 1000, lastUsedAt := Some 1000\<rparr>))
   \<and> getTokenById ''A'' (snd (getCurrentBatchToken 1000 S2_state)) =
       Some ((pool_token ''A'' 100)\<lparr>batchStartedAt := Some 1000, lastUsedAt := Some 1000\<rparr>)
   \<and> tokenSettings (snd (getCurrentBatchToken 1000 S2_state)) = [pool_settings]
   \<and> tokenSettings rollover_state = pool_settings\<lparr>lastUsedTokenIndex := Some 4\<rparr> # []
   \<and> distinct (map token_id (apiTokens rollover_state))
   \<and> availableTokens 1000 rollover_state \<noteq> []
   \<and> fst (getCurrentBatchToken 1000 rollover_state) =
       Inr (Some ((pool_token ''C'' 8)\<lparr>batchStartedAt := Some 1000, lastUsedAt := Some 1000\<rparr>))
   \<and> getTokenById ''B'' (snd (getCurrentBatchToken 1000 rollover_state)) =
       Some ((pool_token ''B'' 0)\<lparr>totalGenerated := 100\<rparr>)
   \<and> hd (tokenSettings (snd (getCurrentBatchToken 1000 rollover_state)))
       = pool_settings\<lparr>lastUsedTokenIndex := Some 2\<rparr>"
proof -
  have h1: "tokenSettings S2_state = pool_settings # []"
    by (simp add: S2_state_def pool_of_def)
  have h2: "(0::int) \<le> (case lastUsedTokenIndex pool_settings of None \<Rightarrow> 0 | Some i \<Rightarrow> i)"
    by (simp add: pool_settings_def)
  have h3: "distinct (map token_id (apiTokens S2_state))"
    by (simp add: S2_state_def pool_eval)
  have h4: "availableTokens 1000 S2_state \<noteq> []"
    by (simp add: S2_state_def pool_eval)
  have av: "availableTokens 1000 S2_state = [pool_token ''A'' 99, pool_token ''B'' 0]"
    by (simp add: S2_state_def pool_eval)
  have cnt: "currentBatchCount (pool_token ''A'' 99) = 99" "token_id (pool_token ''A'' 99) = ''A''"
    by (simp_all add: pool_token_def)
  have upd: "(pool_token ''A'' 99)\<lparr>currentBatchCount := 100,
                 totalGenerated := totalGenerated (pool_token ''A'' 99) + 1,
                 batchStartedAt := (case batchStartedAt (pool_token ''A'' 99) of None \<Rightarrow> Some 1000
                                    | Some b \<Rightarrow> Some b),
                 lastUsedAt := Some 1000\<rparr>
             = (pool_token ''A'' 100)\<lparr>batchStartedAt := Some 1000, lastUsedAt := Some 1000\<rparr>"
    by (simp add: pool_token_def)
  have first: "\<exists>r. fst (getCurrentBatchToken 1000 S2_state) = Inr (Some r)
          \<and> r = (pool_token ''A'' 100)\<lparr>batchStartedAt := Some 1000, lastUsedAt := Some 1000\<rparr>
          \<and> getTokenById ''A'' (snd (getCurrentBatchToken 1000 S2_state)) = Some r
          \<and> tokenSettings (snd (getCurrentBatchToken 1000 S2_state)) = tokenSettings S2_state"
    using getCurrentBatchToken_dispense [OF h1 h2 h3 h4]
    by (simp add: av cnt upd pool_settings_def BATCH_SIZE_def)
  have g1: "tokenSettings rollover_state = pool_settings\<lparr>lastUsedTokenIndex := Some 4\<rparr> # []"
    by (simp add: rollover_state_def pool_of_def)
  have g2: "(0::int) \<le> (case lastUsedTokenIndex (pool_settings\<lparr>lastUsedTokenIndex := Some 4\<rparr>) of
                          None \<Rightarrow> 0 | Some i \<Rightarrow> i)"
    by simp
  have g3: "distinct (map token_id (apiTokens rollover_state))"
    by (simp add: rollover_state_def pool_eval)
  have g4: "availableTokens 1000 rollover_state \<noteq> []"
    by (simp add: rollover_state_def pool_eval)
  have av3: "availableTokens 1000 rollover_state
             = [pool_token ''A'' 3, pool_token ''B'' 100, pool_token ''C'' 7]"
    by (simp add: rollover_state_def pool_eval)
  have ids: "token_id (pool_token ''B'' 100) = ''B''" "token_id (pool_token ''C'' 7) = ''C''"
       "currentBatchCount (pool_token ''B'' 100) = 100" "currentBatchCount (pool_token ''C'' 7) = 7"
    by (simp_all add: pool_token_def)
  have upd3: "(pool_token ''C'' 7)\<lparr>currentBatchCount := 8,
                 totalGenerated := totalGenerated (pool_token ''C'' 7) + 1,
                 batchStartedAt := Some 1000, lastUsedAt := Some 1000\<rparr>
             = (pool_token ''C'' 8)\<lparr>batchStartedAt := Some 1000, lastUsedAt := Some 1000\<rparr>"
       "(pool_token ''B'' 100)\<lparr>currentBatchCount := 0\<rparr> = (pool_token ''B'' 0)\<lparr>totalGenerated := 100\<rparr>"
    by (simp_all add: pool_token_def)
  have second: "\<exists>r. fst (getCurrentBatchToken 1000 rollover_state) = Inr (Some r)
          \<and> r = (pool_token ''C'' 8)\<lparr>batchStartedAt := Some 1000, lastUsedAt := Some 1000\<rparr>
          \<and> getTokenById ''B'' (snd (getCurrentBatchToken 1000 rollover_state))
              = Some ((pool_token ''B'' 0)\<lparr>totalGenerated := 100\<rparr>)
          \<and> (\<exists>rest'. tokenSettings (snd (getCurrentBatchToken 1000 rollover_state))
                 = pool_settings\<lparr>lastUsedTokenIndex := Some 2\<rparr> # rest')"
    using getCurrentBatchToken_dispense [OF g1 g2 g3 g4]
    by (simp add: av3 ids upd3 BATCH_SIZE_def)
  from second have hd3: "hd (tokenSettings (snd (getCurrentBatchToken 1000 rollover_state)))
       = pool_settings\<lparr>lastUsedTokenIndex := Some 2\<rparr>"
    by auto
  show ?thesis using h1 h2 h3 h4 first g1 g3 g4 second hd3 by auto
qed

text \<open>
  Scenario S2, both dispenses: the first returns token A with count 100; the second finds A
  full, resets it to 0, moves the cursor to 1 and returns token B with count 1.
\<close>

lemma scenario_S2:
  "fst (getCurrentBatchToken 1000 S2_state) =
     Inr (Some ((pool_token ''A'' 100)\<lparr>batchStartedAt := Some 1000, lastUsedAt := Some 1000\<rparr>))
   \<and> fst (getCurrentBatchToken 2000 (snd (getCurrentBatchToken 1000 S2_state))) =
     Inr (Some ((pool_token ''B'' 1)\<lparr>batchStartedAt := Some 2000, lastUsedAt := Some 2000\<rparr>))
   \<and> apiTokens (snd (getCurrentBatchToken 2000 (snd (getCurrentBatchToken 1000 S2_state)))) =
     [(pool_token ''A'' 0)\<lparr>totalGenerated := 100, batchStartedAt := Some 1000, lastUsedAt := Some 1000\<rparr>,
      (pool_token ''B'' 1)\<lparr>batchStartedAt := Some 2000, lastUsedAt := Some 2000\<rparr>]
   \<and> map lastUsedTokenIndex
        (tokenSettings (snd (getCurrentBatchToken 2000 (snd (getCurrentBatchToken 1000 S2_state)))))
       = [Some 1]"
  by (simp add: S2_state_def pool_eval dispense_eval)

text \<open>
  Scenario S2 with the single token of the spec's wording: the token after the full one is
  the same token, so the second dispense resets it to 0 and returns it with count 1.
\<close>

lemma scenario_S2_single_token:
  "fst (getCurrentBatchToken 2000 (snd (getCurrentBatchToken 1000 (pool_of [pool_token ''A'' 99])))) =
     Inr (Some ((pool_token ''A'' 1)\<lparr>totalGenerated := 101, batchStartedAt := Some 2000,
                                      lastUsedAt := Some 2000\<rparr>))"
  by (simp add: pool_eval dispense_eval)



text \<open>
  Scenario S3: a single token with nine errors, one a second, then the tenth at 10 s. Its
  cooldown ends at 10 s + 2 h; one millisecond before, both dispensers return nothing; at
  the end the token is out of cooldown and its error history is gone.
\<close>

theorem token_error_cooldown_witness:
  "(0::int) \<le> 10000
   \<and> tokenCooldowns (recordTokenError 10000 ''A'' S3_state) ''A'' \<noteq> Some 0
   \<and> tokenCooldowns (recordTokenError 10000 ''A'' S3_state) ''A'' = Some 7210000
   \<and> fst (isTokenInCooldown 7209999 ''A'' (recordTokenError 10000 ''A'' S3_state))
   \<and> fst (getCurrentBatchToken 7209999 (recordTokenError 10000 ''A'' S3_state)) = Inr None
   \<and> fst (getNextRotationToken (\<lambda>_. 0) 7209999 (recordTokenError 10000 ''A'' S3_state)) = None
   \<and> \<not> fst (isTokenInCooldown 7210000 ''A'' (recordTokenError 10000 ''A'' S3_state))
   \<and> tokenErrorTracking (snd (isTokenInCooldown 7210000 ''A'' (recordTokenError 10000 ''A'' S3_state))) ''A''
       = None"
proof -
  let ?s1 = "recordTokenError 10000 ''A'' S3_state"
  have errs: "errorsOf S3_state ''A'' = [1000, 2000, 3000, 4000, 5000, 6000, 7000, 8000, 9000]"
    by code_simp
  have h1: "(0::int) \<le> 10000" by simp
  have cd: "tokenCooldowns ?s1 ''A'' = Some 7210000"
    by code_simp
  have h2: "tokenCooldowns ?s1 ''A'' \<noteq> Some 0" by (simp add: cd)
  note T = token_error_cooldown [OF h1 h2, where now' = 7209999 and s = S3_state
      and physical = "\<lambda>_. 0"]
  have in_cd: "fst (isTokenInCooldown 7209999 ''A'' ?s1)"
    using T by (simp add: errs ERROR_WINDOW_MS_def ERROR_THRESHOLD_def COOLDOWN_DURATION_MS_def)
  have b: "fst (getCurrentBatchToken 7209999 ?s1) = Inr None"
    by code_simp
  have r: "fst (getNextRotationToken (\<lambda>_. 0) 7209999 ?s1) = None"
    by code_simp
  have e: "\<not> fst (isTokenInCooldown 7210000 ''A'' ?s1)"
       "tokenErrorTracking (snd (isTokenInCooldown 7210000 ''A'' ?s1)) ''A'' = None"
    by code_simp+
  show ?thesis using h1 h2 cd in_cd b r e by simp
qed



text \<open>
  Claim C2 bounds every active token's batch counter by \<open>BATCH_SIZE\<close>. The code checks only
  the token at the cursor against \<open>BATCH_SIZE\<close>; the token it moves on to is incremented
  unchecked.
  The run that overfills a batch, from a fresh pool of two tokens A and B: 100 dispenses
  fill A; with A switched off, 100 dispenses fill B; with A switched on again, the next
  dispense finds A full, resets it and hands out B, whose counter becomes 101.
\<close>

theorem overfill_run:
  "map (\<lambda>t. (token_id t, isActive t, currentBatchCount t))
       (apiTokens (pool_run 1000 overfill_trace fresh_pool))
   = [(''A'', True, 0), (''B'', True, 101)]"
  by code_simp


subsection \<open>Video history\<close>

lemma updateVideoHistoryStatus_table:
  "videoHistory (snd (updateVideoHistoryStatus now vid uid st url msg s)) =
     map (\<lambda>r. if video_id r = vid \<and> userId r = uid
               then r\<lparr>status := st,
                      videoUrl := (if truthy url then url else videoUrl r),
                      errorMessage := (if truthy msg then msg else errorMessage r),
                      updatedAt := now\<rparr>
               else r) (videoHistory s)"
  by (auto simp: updateVideoHistoryStatus_def updateWhere_def applyFields_def noFields_def Let_def
        truthy_def split: option.splits)

lemma updateVideoHistoryStatus_others:
  "users (snd (updateVideoHistoryStatus now vid uid st url msg s)) = users s"
  "apiTokens (snd (updateVideoHistoryStatus now vid uid st url msg s)) = apiTokens s"
  "tokenSettings (snd (updateVideoHistoryStatus now vid uid st url msg s)) = tokenSettings s"
  "tokenErrorTracking (snd (updateVideoHistoryStatus now vid uid st url msg s)) = tokenErrorTracking s"
  "tokenCooldowns (snd (updateVideoHistoryStatus now vid uid st url msg s)) = tokenCooldowns s"
  by (simp_all add: updateVideoHistoryStatus_def Let_def)

text \<open>
  Claim C10. \<^verbatim>\<open>updateVideoHistoryStatus\<close> rewrites exactly the rows with the given job id
  and user id. In such a row it writes the status and \<^verbatim>\<open>updatedAt\<close>; it writes the video URL
  only when one is supplied and not empty, and the error message only when one is supplied
  and not empty; every other column keeps its value. All other rows and the rest of the
  store are unchanged. So marking a job failed with no URL and no message keeps the hosted
  URL and the message it had.
\<close>

theorem updateVideoHistoryStatus_frame:
  "videoHistory (snd (updateVideoHistoryStatus now vid uid st url msg s)) =
     map (\<lambda>r. if video_id r = vid \<and> userId r = uid
               then r\<lparr>status := st,
                      videoUrl := (if truthy url then url else videoUrl r),
                      errorMessage := (if truthy msg then msg else errorMessage r),
                      updatedAt := now\<rparr>
               else r) (videoHistory s)
   \<and> videoHistory (snd (updateVideoHistoryStatus now vid uid ''failed'' None None s)) =
     map (\<lambda>r. if video_id r = vid \<and> userId r = uid
               then r\<lparr>status := ''failed'', updatedAt := now\<rparr> else r) (videoHistory s)
   \<and> videoHistory (snd (updateVideoHistoryStatus now vid uid st (Some []) (Some []) s)) =
     map (\<lambda>r. if video_id r = vid \<and> userId r = uid
               then r\<lparr>status := st, updatedAt := now\<rparr> else r) (videoHistory s)
   \<and> users (snd (updateVideoHistoryStatus now vid uid st url msg s)) = users s
   \<and> apiTokens (snd (updateVideoHistoryStatus now vid uid st url msg s)) = apiTokens s
   \<and> tokenSettings (snd (updateVideoHistoryStatus now vid uid st url msg s)) = tokenSettings s
   \<and> tokenErrorTracking (snd (updateVideoHistoryStatus now vid uid st url msg s)) = tokenErrorTracking s
   \<and> tokenCooldowns (snd (updateVideoHistoryStatus now vid uid st url msg s)) = tokenCooldowns s"
  by (simp add: updateVideoHistoryStatus_table updateVideoHistoryStatus_others truthy_def
        cong: map_cong)

text \<open>
  A completed job with a hosted URL, marked failed without URL or message: the URL stays.
\<close>

theorem updateVideoHistoryStatus_frame_witness:
  "videoHistory (snd (updateVideoHistoryStatus 2000 ''job-1'' ''user-1'' ''failed'' None None
                        (job_store ''completed'' (Some ''https://host/v.mp4'')))) =
     [(job_row ''failed'' (Some ''https://host/v.mp4''))\<lparr>updatedAt := 2000\<rparr>]"
  using updateVideoHistoryStatus_frame [of 2000 "''job-1''" "''user-1''" "''failed''" None None
          "job_store ''completed'' (Some ''https://host/v.mp4'')"]
  by (simp add: job_store_def job_row_def truthy_def)







lemma updateVideoHistoryFields_others:
  "users (snd (updateVideoHistoryFields b now vid uid fieldsArg s)) = users s"
  "apiTokens (snd (updateVideoHistoryFields b now vid uid fieldsArg s)) = apiTokens s"
  "tokenSettings (snd (updateVideoHistoryFields b now vid uid fieldsArg s)) = tokenSettings s"
  "tokenErrorTracking (snd (updateVideoHistoryFields b now vid uid fieldsArg s)) = tokenErrorTracking s"
  "tokenCooldowns (snd (updateVideoHistoryFields b now vid uid fieldsArg s)) = tokenCooldowns s"
  by (simp_all add: updateVideoHistoryFields_def Let_def split: jsarg.splits option.splits)











subsection \<open>Submission queue\<close>

lemma applyFields_noFields:
  "applyFields noFields now r = r\<lparr>updatedAt := now\<rparr>"
  by (simp add: applyFields_def noFields_def)

lemma recordTokenError_tables:
  "videoHistory (recordTokenError now t s) = videoHistory s"
  "users (recordTokenError now t s) = users s"
  "apiTokens (recordTokenError now t s) = apiTokens s"
  by (simp_all add: recordTokenError_def Let_def)

lemma updateVideoHistoryFields_undefined_fields:
  assumes "\<And>r x. f (r\<lparr>updatedAt := x\<rparr>) = f r"
  shows "map f (videoHistory (snd (updateVideoHistoryFields b now vid uid None s)))
         = map f (videoHistory s)"
  using assms
  by (simp add: updateVideoHistoryFields_def Let_def applyFields_noFields updateWhere_def
        split: jsarg.splits option.splits)

lemma updateVideoHistoryStatus_retryCount:
  "map retryCount (videoHistory (snd (updateVideoHistoryStatus now vid uid st url msg s)))
   = map retryCount (videoHistory s)"
  by (simp add: updateVideoHistoryStatus_def Let_def updateWhere_def applyFields_def noFields_def)

lemma handleVideoFailure_retryCount:
  "map retryCount (videoHistory (store (handleVideoFailure b now video msg tok sv)))
   = map retryCount (videoHistory (store sv))"
proof (cases "getVideoById (videoId video) (store sv)")
  case None
  then show ?thesis by (simp add: handleVideoFailure_def)
next
  case (Some videoRecord)
  let ?cur = "case retryCount videoRecord of None \<Rightarrow> 0 | Some c \<Rightarrow> c"
  show ?thesis
  proof (cases "?cur < MAX_RETRIES")
    case False
    then show ?thesis using Some
      by (simp add: handleVideoFailure_def Let_def recordTokenError_tables
            updateVideoHistoryStatus_retryCount split: option.splits)
  next
    case True
    let ?obj = "Obj (noFields\<lparr>set_retryCount := Some (?cur + 1),
                   set_errorMessage := Some (msg @ '' (Retry '' @ number_text (?cur + 1) @ ''/''
                                       @ number_text MAX_RETRIES @ '')'')\<rparr>)"
    have keep: "map retryCount (videoHistory (snd (updateVideoHistoryFields b now (videoId video) ?obj None (store sv))))
        = map retryCount (videoHistory (store sv))"
      by (rule updateVideoHistoryFields_undefined_fields) simp
    show ?thesis
    proof (cases "updateVideoHistoryFields b now (videoId video) ?obj None (store sv)")
      case (Pair res st1)
      then have st1: "map retryCount (videoHistory st1) = map retryCount (videoHistory (store sv))"
        using keep by simp
      show ?thesis
        using Some True Pair st1
        by (cases res)
           (simp_all add: handleVideoFailure_def Let_def recordTokenError_tables
              updateVideoHistoryStatus_retryCount split: option.splits)
    qed
  qed
qed


lemma updateVideoHistoryFields_accepted:
  "bindObject obj \<noteq> None \<Longrightarrow>
   \<exists>res st1. updateVideoHistoryFields bindObject now vid (Obj obj) None s = (Inr res, st1)"
  by (auto simp: updateVideoHistoryFields_def Let_def noFields_def missingToken_def)

lemma failedAttempt_invariant:
  assumes accept: "\<And>obj. bindObject obj \<noteq> None"
    and q: "bulkQueue sv = [job_video]" and t: "timers sv = []" and p: "isProcessing sv"
    and rows: "map (\<lambda>r. r\<lparr>updatedAt := 0\<rparr>) (videoHistory (store sv))
               = [(job_row ''pending'' None)\<lparr>updatedAt := 0\<rparr>]"
  shows "bulkQueue (failedAttempt bindObject now message rotationToken sv) = [job_video]
       \<and> timers (failedAttempt bindObject now message rotationToken sv) = []
       \<and> isProcessing (failedAttempt bindObject now message rotationToken sv)
       \<and> map (\<lambda>r. r\<lparr>updatedAt := 0\<rparr>)
            (videoHistory (store (failedAttempt bindObject now message rotationToken sv)))
          = [(job_row ''pending'' None)\<lparr>updatedAt := 0\<rparr>]"
proof -
  obtain r where r: "videoHistory (store sv) = [r]"
      and r0: "r\<lparr>updatedAt := 0\<rparr> = (job_row ''pending'' None)\<lparr>updatedAt := 0\<rparr>"
    using rows by (cases "videoHistory (store sv)") auto
  have "video_id (r\<lparr>updatedAt := 0\<rparr>) = ''job-1''" "retryCount (r\<lparr>updatedAt := 0\<rparr>) = Some 0"
    unfolding r0 by (simp_all add: job_row_def)
  then have rid: "video_id r = ''job-1''" and rc: "retryCount r = Some 0" by simp_all
  have found: "getVideoById (videoId job_video) (store (sv\<lparr>bulkQueue := []\<rparr>)) = Some r"
    by (simp add: getVideoById_def r rid job_video_def)
  let ?obj = "noFields\<lparr>set_retryCount := Some (0 + 1),
                 set_errorMessage := Some (message @ '' (Retry '' @ number_text (0 + 1) @ ''/''
                                     @ number_text MAX_RETRIES @ '')'')\<rparr>"
  obtain res st1 where upd: "updateVideoHistoryFields bindObject now (videoId job_video) (Obj ?obj) None
                    (store sv) = (Inr res, st1)"
    using updateVideoHistoryFields_accepted [of bindObject ?obj] accept [of ?obj] by blast
  have st1: "map (\<lambda>r. r\<lparr>updatedAt := 0\<rparr>) (videoHistory st1)
             = map (\<lambda>r. r\<lparr>updatedAt := 0\<rparr>) (videoHistory (store sv))"
    using updateVideoHistoryFields_undefined_fields
            [of "\<lambda>r. r\<lparr>updatedAt := 0\<rparr>" bindObject now "videoId job_video" "Obj ?obj" "store sv"]
          upd
    by simp
  define st2 where "st2 = (case rotationToken of None \<Rightarrow> st1
                            | Some tk \<Rightarrow> recordTokenError now (token_id tk) st1)"
  have st2: "videoHistory st2 = videoHistory st1"
    by (simp add: st2_def recordTokenError_tables split: option.splits)
  have hvf: "handleVideoFailure bindObject now job_video message rotationToken (sv\<lparr>bulkQueue := []\<rparr>)
      = sv\<lparr>bulkQueue := [], store := st2, timers := [(RETRY_DELAY_MS, job_video)]\<rparr>"
    using found rc upd t
    by (simp add: handleVideoFailure_def Let_def MAX_RETRIES_def st2_def split: option.splits)
  show ?thesis
    using q p st1 rows st2
    by (simp add: failedAttempt_def hvf retryTimerFires_def Let_def)
qed

lemma failedAttempt_repeated:
  assumes accept: "\<And>obj. bindObject obj \<noteq> None"
  shows "bulkQueue (((failedAttempt bindObject now message rotationToken) ^^ n) job_server) = [job_video]
       \<and> timers (((failedAttempt bindObject now message rotationToken) ^^ n) job_server) = []
       \<and> isProcessing (((failedAttempt bindObject now message rotationToken) ^^ n) job_server)
       \<and> map (\<lambda>r. r\<lparr>updatedAt := 0\<rparr>)
            (videoHistory (store (((failedAttempt bindObject now message rotationToken) ^^ n) job_server)))
          = [(job_row ''pending'' None)\<lparr>updatedAt := 0\<rparr>]"
proof (induction n)
  case 0
  show ?case by (simp add: job_server_def job_store_def)
next
  case (Suc n)
  show ?case
    using failedAttempt_invariant [OF accept, where
        sv = "((failedAttempt bindObject now message rotationToken) ^^ n) job_server"
        and now = now and message = message and rotationToken = rotationToken]
      Suc.IH
    by simp
qed

text \<open>
  Claim C4 has \<^verbatim>\<open>handleVideoFailure\<close> count the retries in the job row and give up after
  two. The function calls \<^verbatim>\<open>updateVideoHistoryFields\<close> with the new count in the place of
  the user id and no fields, so the row's \<^verbatim>\<open>retryCount\<close> is never written: no call of
  \<^verbatim>\<open>handleVideoFailure\<close> changes any row's \<^verbatim>\<open>retryCount\<close>. With a driver that accepts
  the object as a query parameter, a job that keeps failing is put back on the queue after
  every failure, any number of times, with its row still pending, at \<^verbatim>\<open>retryCount\<close> 0 and
  without an error message.
\<close>

theorem handleVideoFailure_never_counts:
  assumes "\<And>obj. bindObject obj \<noteq> None"
  shows "map retryCount (videoHistory (store (handleVideoFailure bindObject now video message rotationToken sv)))
           = map retryCount (videoHistory (store sv))
       \<and> bulkQueue (((failedAttempt bindObject now message rotationToken) ^^ n) job_server) = [job_video]
       \<and> map (\<lambda>r. (status r, retryCount r, errorMessage r))
            (videoHistory (store (((failedAttempt bindObject now message rotationToken) ^^ n) job_server)))
          = [(''pending'', Some 0, None)]"
proof -
  let ?sv = "((failedAttempt bindObject now message rotationToken) ^^ n) job_server"
  have rep: "bulkQueue ?sv = [job_video]"
    and rows: "map (\<lambda>r. r\<lparr>updatedAt := 0\<rparr>) (videoHistory (store ?sv))
               = [(job_row ''pending'' None)\<lparr>updatedAt := 0\<rparr>]"
    using failedAttempt_repeated [OF assms, where now = now and message = message
            and rotationToken = rotationToken and n = n] by simp_all
  have "map (\<lambda>r. (status r, retryCount r, errorMessage r)) (videoHistory (store ?sv))
        = map (\<lambda>r. (status r, retryCount r, errorMessage r))
              (map (\<lambda>r. r\<lparr>updatedAt := 0\<rparr>) (videoHistory (store ?sv)))"
    by simp
  also have "\<dots> = [(''pending'', Some 0, None)]"
    unfolding rows by (simp add: job_row_def)
  finally show ?thesis
    using rep handleVideoFailure_retryCount by simp
qed

text \<open>
  Five failed submissions in a row of the job, with a driver that sends the object as a
  text no user id equals: the job is on the queue for a sixth attempt.
\<close>

theorem handleVideoFailure_never_counts_witness:
  "bulkQueue (((failedAttempt (\<lambda>_. Some ''[object Object]'') 5000 ''VEO API error (500)''
                  (Some (pool_token ''A'' 0))) ^^ 5) job_server) = [job_video]
   \<and> map (\<lambda>r. (status r, retryCount r, errorMessage r))
        (videoHistory (store (((failedAttempt (\<lambda>_. Some ''[object Object]'') 5000
                  ''VEO API error (500)'' (Some (pool_token ''A'' 0))) ^^ 5) job_server)))
      = [(''pending'', Some 0, None)]"
  using handleVideoFailure_never_counts [where bindObject = "\<lambda>_. Some ''[object Object]''"
          and now = 5000 and video = job_video and message = "''VEO API error (500)''"
          and rotationToken = "Some (pool_token ''A'' 0)" and sv = job_server and n = 5]
  by simp

text \<open>
  With a driver that refuses the object, the first failure already marks the job failed,
  through the \<^verbatim>\<open>catch\<close> branch: no retry takes place and the message carries no retry
  count.
\<close>

lemma handleVideoFailure_driver_refuses:
  "handleVideoFailure (\<lambda>_. None) 5000 job_video ''VEO API error (500)'' None
     (job_server\<lparr>bulkQueue := []\<rparr>)
   = job_server\<lparr>bulkQueue := [],
        store := (job_store ''pending'' None)\<lparr>videoHistory :=
           [(job_row ''failed'' None)\<lparr>errorMessage := Some ''VEO API error (500)'',
                                       updatedAt := 5000\<rparr>]\<rparr>\<rparr>"
  by (simp add: handleVideoFailure_def job_server_def job_store_def job_row_def job_video_def
        getVideoById_def MAX_RETRIES_def updateVideoHistoryFields_def updateVideoHistoryStatus_def
        updateWhere_def returning_def applyFields_def noFields_def truthy_def Let_def)


subsection \<open>Bulk generation\<close>










subsection \<open>Plan enforcement\<close>

lemma number_text_limits:
  "number_text 50 = ''50''" "number_text 100 = ''100''"
  by (simp_all add: number_text_def digits_of.simps digit_char_def)

text \<open>
  Claim C5 has \<^verbatim>\<open>canBulkGenerate\<close> answer every denial with a reason and never throw. The
  decision in full, in the order of the code: an admin is allowed unconditionally; a user
  whose plan has expired is denied; a user on the scale (empire) plan is denied when the
  count exceeds 50 (100) prompts, then denied when it exceeds what is left of the daily
  1000 (2000), never less than 0, and otherwise allowed with that remainder; a user on the
  free plan, whose tools do not include bulk, is denied. For any other plan type the tool
  check means to deny with \<^verbatim>\<open>Invalid plan type\<close>, and does so unless the plan type is the
  name of a property that the object \<^verbatim>\<open>PLAN_CONFIGS\<close> inherits, such as
  \<^verbatim>\<open>constructor\<close>: the test \<^verbatim>\<open>if (!config)\<close> lets the inherited value pass, and
  \<^verbatim>\<open>config.allowedTools.includes\<close> throws a TypeError. Every result that is returned is an
  allowance or carries a reason; the exception occurs for exactly those plan types, on a
  user who is not an admin and whose plan has not expired.
\<close>

theorem canBulkGenerate_decision:
  "canBulkGenerate now user videoCount =
     (if isAdmin user then Inr \<lparr>allowed = True, reason = None, remainingVideos = None\<rparr>
      else if isPlanExpired now user then
        Inr \<lparr>allowed = False, reason = Some ''Your plan has expired. Please contact admin to renew.'',
             remainingVideos = None\<rparr>
      else if planType user = ''scale'' then
        Inr (if videoCount > 50 then
           \<lparr>allowed = False,
            reason = Some ''Your Scale plan allows a maximum of 50 prompts in total. Please reduce the number of prompts.'',
            remainingVideos = None\<rparr>
         else if videoCount > max 0 (1000 - dailyVideoCount user) then
           \<lparr>allowed = False,
            reason = Some (''You have '' @ number_text (max 0 (1000 - dailyVideoCount user))
                           @ '' videos remaining today. Cannot generate ''
                           @ number_text videoCount @ '' videos.''),
            remainingVideos = None\<rparr>
         else \<lparr>allowed = True, reason = None,
               remainingVideos = Some (Num (max 0 (1000 - dailyVideoCount user)))\<rparr>)
      else if planType user = ''empire'' then
        Inr (if videoCount > 100 then
           \<lparr>allowed = False,
            reason = Some ''Your Empire plan allows a maximum of 100 prompts in total. Please reduce the number of prompts.'',
            remainingVideos = None\<rparr>
         else if videoCount > max 0 (2000 - dailyVideoCount user) then
           \<lparr>allowed = False,
            reason = Some (''You have '' @ number_text (max 0 (2000 - dailyVideoCount user))
                           @ '' videos remaining today. Cannot generate ''
                           @ number_text videoCount @ '' videos.''),
            remainingVideos = None\<rparr>
         else \<lparr>allowed = True, reason = None,
               remainingVideos = Some (Num (max 0 (2000 - dailyVideoCount user)))\<rparr>)
      else if planType user = ''free'' then
        Inr \<lparr>allowed = False,
             reason = Some ''This tool is not available on your Free plan. Please upgrade to access this feature.'',
             remainingVideos = None\<rparr>
      else if planType user \<in> set objectPrototypeKeys then Inl TypeError
      else Inr \<lparr>allowed = False, reason = Some ''Invalid plan type. Please contact admin.'',
                remainingVideos = None\<rparr>)
   \<and> (case canBulkGenerate now user videoCount of
         Inl e \<Rightarrow> e = TypeError \<and> \<not> isAdmin user \<and> \<not> isPlanExpired now user
                  \<and> planType user \<in> set objectPrototypeKeys
       | Inr r \<Rightarrow> allowed r \<or> reason r \<noteq> None)"
proof -
  let ?rhs = "(if isAdmin user then Inr \<lparr>allowed = True, reason = None, remainingVideos = None\<rparr>
      else if isPlanExpired now user then
        Inr \<lparr>allowed = False, reason = Some ''Your plan has expired. Please contact admin to renew.'',
             remainingVideos = None\<rparr>
      else if planType user = ''scale'' then
        Inr (if videoCount > 50 then
           \<lparr>allowed = False,
            reason = Some ''Your Scale plan allows a maximum of 50 prompts in total. Please reduce the number of prompts.'',
            remainingVideos = None\<rparr>
         else if videoCount > max 0 (1000 - dailyVideoCount user) then
           \<lparr>allowed = False,
            reason = Some (''You have '' @ number_text (max 0 (1000 - dailyVideoCount user))
                           @ '' videos remaining today. Cannot generate ''
                           @ number_text videoCount @ '' videos.''),
            remainingVideos = None\<rparr>
         else \<lparr>allowed = True, reason = None,
               remainingVideos = Some (Num (max 0 (1000 - dailyVideoCount user)))\<rparr>)
      else if planType user = ''empire'' then
        Inr (if videoCount > 100 then
           \<lparr>allowed = False,
            reason = Some ''Your Empire plan allows a maximum of 100 prompts in total. Please reduce the number of prompts.'',
            remainingVideos = None\<rparr>
         else if videoCount > max 0 (2000 - dailyVideoCount user) then
           \<lparr>allowed = False,
            reason = Some (''You have '' @ number_text (max 0 (2000 - dailyVideoCount user))
                           @ '' videos remaining today. Cannot generate ''
                           @ number_text videoCount @ '' videos.''),
            remainingVideos = None\<rparr>
         else \<lparr>allowed = True, reason = None,
               remainingVideos = Some (Num (max 0 (2000 - dailyVideoCount user)))\<rparr>)
      else if planType user = ''free'' then
        Inr \<lparr>allowed = False,
             reason = Some ''This tool is not available on your Free plan. Please upgrade to access this feature.'',
             remainingVideos = None\<rparr>
      else if planType user \<in> set objectPrototypeKeys then Inl TypeError
      else Inr \<lparr>allowed = False, reason = Some ''Invalid plan type. Please contact admin.'',
                remainingVideos = None\<rparr>) :: error + PlanCheckResult"
  have eq: "canBulkGenerate now user videoCount = ?rhs"
    by (simp add: canBulkGenerate_def canAccessTool_def PLAN_CONFIGS_def getRemainingVideos_def
          exceeds_def jsnumber_text_def number_text_limits Let_def)
  have shape: "case ?rhs of
         Inl e \<Rightarrow> e = TypeError \<and> \<not> isAdmin user \<and> \<not> isPlanExpired now user
                  \<and> planType user \<in> set objectPrototypeKeys
       | Inr r \<Rightarrow> allowed r \<or> reason r \<noteq> None"
    by simp
  show ?thesis
    using eq shape by simp
qed

text \<open>
  The scale user of the scenarios, plan running, nothing generated today: 50 prompts are
  allowed with 1000 remaining, 51 are denied; after 990 videos, 20 prompts are denied; after
  the plan's expiry one prompt is denied. The same user with the plan type
  \<^verbatim>\<open>constructor\<close>: the check throws.
\<close>

theorem canBulkGenerate_decision_witness:
  "canBulkGenerate 5000 scale_user 50 =
     Inr \<lparr>allowed = True, reason = None, remainingVideos = Some (Num 1000)\<rparr>
   \<and> canBulkGenerate 5000 scale_user 51 =
     Inr \<lparr>allowed = False,
          reason = Some ''Your Scale plan allows a maximum of 50 prompts in total. Please reduce the number of prompts.'',
          remainingVideos = None\<rparr>
   \<and> canBulkGenerate 5000 (scale_user\<lparr>dailyVideoCount := 990\<rparr>) 20 =
     Inr \<lparr>allowed = False,
          reason = Some ''You have 10 videos remaining today. Cannot generate 20 videos.'',
          remainingVideos = None\<rparr>
   \<and> canBulkGenerate 864000001 scale_user 1 =
     Inr \<lparr>allowed = False, reason = Some ''Your plan has expired. Please contact admin to renew.'',
          remainingVideos = None\<rparr>
   \<and> canBulkGenerate 5000 (scale_user\<lparr>planType := ''constructor''\<rparr>) 1 = Inl TypeError
   \<and> canBulkGenerate 5000 (scale_user\<lparr>planType := ''enterprise''\<rparr>) 1 =
     Inr \<lparr>allowed = False, reason = Some ''Invalid plan type. Please contact admin.'',
          remainingVideos = None\<rparr>"
  using canBulkGenerate_decision [of 5000 scale_user 50]
    canBulkGenerate_decision [of 5000 scale_user 51]
    canBulkGenerate_decision [of 5000 "scale_user\<lparr>dailyVideoCount := 990\<rparr>" 20]
    canBulkGenerate_decision [of 864000001 scale_user 1]
    canBulkGenerate_decision [of 5000 "scale_user\<lparr>planType := ''constructor''\<rparr>" 1]
    canBulkGenerate_decision [of 5000 "scale_user\<lparr>planType := ''enterprise''\<rparr>" 1]
  by (simp add: scale_user_def isPlanExpired_def number_text_def digits_of.simps digit_char_def
        objectPrototypeKeys_def)

subsection \<open>Database retry\<close>








subsection \<open>Media upload cache\<close>

lemma cacheConsistentI:
  assumes "\<And>s p. cloudinaryUploadCache u s = Some p \<Longrightarrow>
          p < length (uploads u) \<and> up_sceneId (uploads u ! p) = s
        \<and> up_origin (uploads u ! p) = StatusRoute \<and> up_promise (uploads u ! p) \<noteq> Rejected"
    and "\<And>p. p < length (uploads u) \<Longrightarrow> up_origin (uploads u ! p) = StatusRoute \<Longrightarrow>
          up_promise (uploads u ! p) \<noteq> Rejected \<Longrightarrow>
          cloudinaryUploadCache u (up_sceneId (uploads u ! p)) = Some p"
  shows "cacheConsistent u"
  using assms unfolding cacheConsistent_def by blast

lemma cacheConsistent_cached:
  "cacheConsistent u \<Longrightarrow> cloudinaryUploadCache u s = Some p \<Longrightarrow>
     p < length (uploads u) \<and> up_sceneId (uploads u ! p) = s
   \<and> up_origin (uploads u ! p) = StatusRoute \<and> up_promise (uploads u ! p) \<noteq> Rejected"
  unfolding cacheConsistent_def by blast

lemma cacheConsistent_live:
  "cacheConsistent u \<Longrightarrow> p < length (uploads u) \<Longrightarrow> up_origin (uploads u ! p) = StatusRoute \<Longrightarrow>
   up_promise (uploads u ! p) \<noteq> Rejected \<Longrightarrow>
   cloudinaryUploadCache u (up_sceneId (uploads u ! p)) = Some p"
  unfolding cacheConsistent_def by blast

lemma statusRouteCompleted_consistent:
  assumes inv: "cacheConsistent u"
  shows "cacheConsistent (snd (statusRouteCompleted sceneId u))"
proof (cases "cloudinaryUploadCache u sceneId")
  case (Some p)
  then show ?thesis using inv by (simp add: statusRouteCompleted_def)
next
  case None
  let ?n = "length (uploads u)"
  let ?x = "\<lparr>up_sceneId = sceneId, up_origin = StatusRoute, up_promise = Pending\<rparr>"
  let ?u' = "u\<lparr>uploads := uploads u @ [?x],
               cloudinaryUploadCache := (cloudinaryUploadCache u)(sceneId \<mapsto> ?n)\<rparr>"
  have eq: "snd (statusRouteCompleted sceneId u) = ?u'"
    using None by (simp add: statusRouteCompleted_def Let_def)
  have "cacheConsistent ?u'"
  proof (rule cacheConsistentI)
    fix s p assume c: "cloudinaryUploadCache ?u' s = Some p"
    show "p < length (uploads ?u') \<and> up_sceneId (uploads ?u' ! p) = s
        \<and> up_origin (uploads ?u' ! p) = StatusRoute \<and> up_promise (uploads ?u' ! p) \<noteq> Rejected"
    proof (cases "s = sceneId")
      case True
      then have "p = ?n" using c by simp
      then show ?thesis using True by simp
    next
      case False
      then have "cloudinaryUploadCache u s = Some p" using c by simp
      from cacheConsistent_cached [OF inv this] show ?thesis by (simp add: nth_append)
    qed
  next
    fix p assume p: "p < length (uploads ?u')" and o: "up_origin (uploads ?u' ! p) = StatusRoute"
      and l: "up_promise (uploads ?u' ! p) \<noteq> Rejected"
    show "cloudinaryUploadCache ?u' (up_sceneId (uploads ?u' ! p)) = Some p"
    proof (cases "p = ?n")
      case True
      then show ?thesis by simp
    next
      case False
      then have lt: "p < ?n" using p by simp
      then have same: "uploads ?u' ! p = uploads u ! p" by (simp add: nth_append)
      have c: "cloudinaryUploadCache u (up_sceneId (uploads u ! p)) = Some p"
        using cacheConsistent_live [OF inv lt] o l same by simp
      then have "up_sceneId (uploads u ! p) \<noteq> sceneId" using None by auto
      then show ?thesis using c same by simp
    qed
  qed
  then show ?thesis by (simp only: eq)
qed

lemma pollingCompleted_consistent:
  assumes inv: "cacheConsistent u"
  shows "cacheConsistent (snd (pollingCompleted sceneId u))"
proof -
  let ?n = "length (uploads u)"
  let ?x = "\<lparr>up_sceneId = sceneId, up_origin = PollingCoordinator, up_promise = Pending\<rparr>"
  let ?u' = "u\<lparr>uploads := uploads u @ [?x]\<rparr>"
  have eq: "snd (pollingCompleted sceneId u) = ?u'"
    by (simp add: pollingCompleted_def)
  have "cacheConsistent ?u'"
  proof (rule cacheConsistentI)
    fix s p assume "cloudinaryUploadCache ?u' s = Some p"
    then have "cloudinaryUploadCache u s = Some p" by simp
    from cacheConsistent_cached [OF inv this]
    show "p < length (uploads ?u') \<and> up_sceneId (uploads ?u' ! p) = s
        \<and> up_origin (uploads ?u' ! p) = StatusRoute \<and> up_promise (uploads ?u' ! p) \<noteq> Rejected"
      by (simp add: nth_append)
  next
    fix p assume p: "p < length (uploads ?u')" and o: "up_origin (uploads ?u' ! p) = StatusRoute"
      and l: "up_promise (uploads ?u' ! p) \<noteq> Rejected"
    have "p \<noteq> ?n" using o by auto
    then have lt: "p < ?n" using p by simp
    then have same: "uploads ?u' ! p = uploads u ! p" by (simp add: nth_append)
    show "cloudinaryUploadCache ?u' (up_sceneId (uploads ?u' ! p)) = Some p"
      using cacheConsistent_live [OF inv lt] o l same by simp
  qed
  then show ?thesis by (simp only: eq)
qed

lemma uploadSettles_consistent:
  assumes inv: "cacheConsistent u"
  shows "cacheConsistent (uploadSettles p result u)"
proof (cases "p < length (uploads u) \<and> up_promise (uploads u ! p) = Pending \<and> result \<noteq> Pending")
  case False
  then have "uploadSettles p result u = u" by (auto simp: uploadSettles_def)
  then show ?thesis using inv by simp
next
  case True
  then have plt: "p < length (uploads u)" and pend: "up_promise (uploads u ! p) = Pending"
    and res: "result \<noteq> Pending" by simp_all
  let ?x = "uploads u ! p"
  let ?ups = "(uploads u)[p := ?x\<lparr>up_promise := result\<rparr>]"
  show ?thesis
  proof (cases "result = Rejected \<and> up_origin ?x = StatusRoute")
    case rej: True
    let ?u' = "u\<lparr>uploads := ?ups,
                 cloudinaryUploadCache := (cloudinaryUploadCache u)(up_sceneId ?x := None)\<rparr>"
    have eq: "uploadSettles p result u = ?u'"
      using True rej by (simp add: uploadSettles_def Let_def)
    have cp: "cloudinaryUploadCache u (up_sceneId ?x) = Some p"
      using cacheConsistent_live [OF inv plt] rej pend by simp
    have "cacheConsistent ?u'"
    proof (rule cacheConsistentI)
      fix s q assume c: "cloudinaryUploadCache ?u' s = Some q"
      then have ne: "s \<noteq> up_sceneId ?x" and c0: "cloudinaryUploadCache u s = Some q"
        by (auto split: if_splits)
      from cacheConsistent_cached [OF inv c0]
      have q: "q < length (uploads u)" "up_sceneId (uploads u ! q) = s"
        "up_origin (uploads u ! q) = StatusRoute" "up_promise (uploads u ! q) \<noteq> Rejected"
        by simp_all
      have "q \<noteq> p" using q(2) ne by auto
      then show "q < length (uploads ?u') \<and> up_sceneId (uploads ?u' ! q) = s
        \<and> up_origin (uploads ?u' ! q) = StatusRoute \<and> up_promise (uploads ?u' ! q) \<noteq> Rejected"
        using q by simp
    next
      fix q assume q: "q < length (uploads ?u')" and o: "up_origin (uploads ?u' ! q) = StatusRoute"
        and l: "up_promise (uploads ?u' ! q) \<noteq> Rejected"
      have qp: "q \<noteq> p" using l rej plt by auto
      then have same: "uploads ?u' ! q = uploads u ! q" by simp
      have qlt: "q < length (uploads u)" using q by simp
      have c: "cloudinaryUploadCache u (up_sceneId (uploads u ! q)) = Some q"
        using cacheConsistent_live [OF inv qlt] o l same by simp
      have "up_sceneId (uploads u ! q) \<noteq> up_sceneId ?x"
        using c cp qp by auto
      then show "cloudinaryUploadCache ?u' (up_sceneId (uploads ?u' ! q)) = Some q"
        using c same by simp
    qed
    then show ?thesis by (simp only: eq)
  next
    case keep: False
    let ?u' = "u\<lparr>uploads := ?ups\<rparr>"
    have eq: "uploadSettles p result u = ?u'"
      using True keep by (auto simp: uploadSettles_def Let_def)
    have "cacheConsistent ?u'"
    proof (rule cacheConsistentI)
      fix s q assume "cloudinaryUploadCache ?u' s = Some q"
      then have c0: "cloudinaryUploadCache u s = Some q" by simp
      from cacheConsistent_cached [OF inv c0]
      have q: "q < length (uploads u)" "up_sceneId (uploads u ! q) = s"
        "up_origin (uploads u ! q) = StatusRoute" "up_promise (uploads u ! q) \<noteq> Rejected"
        by simp_all
      show "q < length (uploads ?u') \<and> up_sceneId (uploads ?u' ! q) = s
        \<and> up_origin (uploads ?u' ! q) = StatusRoute \<and> up_promise (uploads ?u' ! q) \<noteq> Rejected"
      proof (cases "q = p")
        case True
        then show ?thesis using q keep by auto
      next
        case False
        then show ?thesis using q by simp
      qed
    next
      fix q assume q: "q < length (uploads ?u')" and o: "up_origin (uploads ?u' ! q) = StatusRoute"
        and l: "up_promise (uploads ?u' ! q) \<noteq> Rejected"
      have qlt: "q < length (uploads u)" using q by simp
      show "cloudinaryUploadCache ?u' (up_sceneId (uploads ?u' ! q)) = Some q"
      proof (cases "q = p")
        case True
        then have "up_origin ?x = StatusRoute" using o plt by simp
        then have "cloudinaryUploadCache u (up_sceneId ?x) = Some p"
          using cacheConsistent_live [OF inv plt] pend by simp
        then show ?thesis using True plt by simp
      next
        case False
        then have same: "uploads ?u' ! q = uploads u ! q" by simp
        show ?thesis using cacheConsistent_live [OF inv qlt] o l same by simp
      qed
    qed
    then show ?thesis by (simp only: eq)
  qed
qed

lemma run_consistent: "cacheConsistent u \<Longrightarrow> cacheConsistent (run es u)"
proof (induction es arbitrary: u)
  case Nil
  then show ?case by simp
next
  case (Cons e es)
  have "cacheConsistent (step e u)"
    using Cons.prems
    by (cases e)
       (simp_all add: statusRouteCompleted_consistent pollingCompleted_consistent
          uploadSettles_consistent)
  then show ?case using Cons.IH by simp
qed

lemma initial_consistent: "cacheConsistent initial_uploader"
  by (simp add: cacheConsistent_def initial_uploader_def)

lemma liveRouteUploads_at_most_one:
  assumes "cacheConsistent u"
  shows "length (liveRouteUploads sceneId u) \<le> 1"
proof -
  have d: "distinct (liveRouteUploads sceneId u)"
    by (simp add: liveRouteUploads_def)
  have "set (liveRouteUploads sceneId u) \<subseteq> {p. cloudinaryUploadCache u sceneId = Some p}"
    using cacheConsistent_live [OF assms] by (auto simp: liveRouteUploads_def)
  also have "\<dots> \<subseteq> (case cloudinaryUploadCache u sceneId of None \<Rightarrow> {} | Some p \<Rightarrow> {p})"
    by (auto split: option.splits)
  finally have sub: "set (liveRouteUploads sceneId u)
       \<subseteq> (case cloudinaryUploadCache u sceneId of None \<Rightarrow> {} | Some p \<Rightarrow> {p})" .
  have "card (set (liveRouteUploads sceneId u)) \<le> 1"
  proof (cases "cloudinaryUploadCache u sceneId")
    case None
    then show ?thesis using sub by simp
  next
    case (Some p)
    then have "set (liveRouteUploads sceneId u) \<subseteq> {p}" using sub by simp
    then have "card (set (liveRouteUploads sceneId u)) \<le> card {p}"
      by (intro card_mono) simp_all
    then show ?thesis by simp
  qed
  then show ?thesis using d by (simp add: distinct_card)
qed



text \<open>
  Claim C6 allows one upload per scene whichever path sees the completion. The polling
  coordinator's completion and a status-check request for the same scene each start an
  upload: two uploads of the scene are pending together.
\<close>

theorem scene_uploaded_twice:
  "map (\<lambda>x. (up_origin x, up_promise x))
       (uploadsFor ''bulk-job-1-1700000000000''
          (run [PollCompleted ''bulk-job-1-1700000000000'',
                RouteCompleted ''bulk-job-1-1700000000000''] initial_uploader))
   = [(PollingCoordinator, Pending), (StatusRoute, Pending)]"
  by (simp add: uploadsFor_def initial_uploader_def pollingCompleted_def statusRouteCompleted_def
        Let_def)

text \<open>
  Claim C6, amended. The cache belongs to the status-check route and deduplicates the
  uploads that route starts: after any sequence of completions and upload outcomes, at
  most one upload started by the route for a scene has not failed; a status-check
  completion for a scene with a cached promise starts nothing and awaits that promise (so
  its callers see the same hosted URL); one for a scene without an entry starts an upload
  and caches its promise in the same step; and when a cached upload fails its entry is
  removed, so that a later request starts a new one. The polling coordinator does not
  consult the cache: each of its completions starts an upload of its own and leaves the
  cache as it is.
\<close>

theorem route_uploads_deduplicated:
  fixes es :: "event list" and sceneId :: string and u :: uploader
  defines "u \<equiv> run es initial_uploader"
  shows "length (liveRouteUploads sceneId u) \<le> 1
   \<and> (\<forall>p. cloudinaryUploadCache u sceneId = Some p \<longrightarrow>
          statusRouteCompleted sceneId u = (p, u)
        \<and> up_sceneId (uploads u ! p) = sceneId \<and> up_promise (uploads u ! p) \<noteq> Rejected)
   \<and> (cloudinaryUploadCache u sceneId = None \<longrightarrow>
          fst (statusRouteCompleted sceneId u) = length (uploads u)
        \<and> uploads (snd (statusRouteCompleted sceneId u)) =
            uploads u @ [\<lparr>up_sceneId = sceneId, up_origin = StatusRoute, up_promise = Pending\<rparr>]
        \<and> cloudinaryUploadCache (snd (statusRouteCompleted sceneId u)) sceneId
            = Some (length (uploads u)))
   \<and> (\<forall>p. cloudinaryUploadCache u sceneId = Some p \<and> up_promise (uploads u ! p) = Pending \<longrightarrow>
          cloudinaryUploadCache (uploadSettles p Rejected u) sceneId = None)
   \<and> uploads (snd (pollingCompleted sceneId u)) =
        uploads u @ [\<lparr>up_sceneId = sceneId, up_origin = PollingCoordinator, up_promise = Pending\<rparr>]
   \<and> cloudinaryUploadCache (snd (pollingCompleted sceneId u)) = cloudinaryUploadCache u"
proof -
  have inv: "cacheConsistent u"
    unfolding u_def by (rule run_consistent [OF initial_consistent])
  have a: "length (liveRouteUploads sceneId u) \<le> 1"
    by (rule liveRouteUploads_at_most_one [OF inv])
  have b: "\<forall>p. cloudinaryUploadCache u sceneId = Some p \<longrightarrow>
          statusRouteCompleted sceneId u = (p, u)
        \<and> up_sceneId (uploads u ! p) = sceneId \<and> up_promise (uploads u ! p) \<noteq> Rejected"
    using cacheConsistent_cached [OF inv] by (auto simp: statusRouteCompleted_def)
  have c: "cloudinaryUploadCache u sceneId = None \<longrightarrow>
          fst (statusRouteCompleted sceneId u) = length (uploads u)
        \<and> uploads (snd (statusRouteCompleted sceneId u)) =
            uploads u @ [\<lparr>up_sceneId = sceneId, up_origin = StatusRoute, up_promise = Pending\<rparr>]
        \<and> cloudinaryUploadCache (snd (statusRouteCompleted sceneId u)) sceneId
            = Some (length (uploads u))"
    by (simp add: statusRouteCompleted_def Let_def)
  have d: "\<forall>p. cloudinaryUploadCache u sceneId = Some p \<and> up_promise (uploads u ! p) = Pending \<longrightarrow>
          cloudinaryUploadCache (uploadSettles p Rejected u) sceneId = None"
  proof (intro allI impI)
    fix p assume p: "cloudinaryUploadCache u sceneId = Some p \<and> up_promise (uploads u ! p) = Pending"
    from cacheConsistent_cached [OF inv conjunct1 [OF p]]
    have "p < length (uploads u)" "up_sceneId (uploads u ! p) = sceneId"
         "up_origin (uploads u ! p) = StatusRoute" by simp_all
    then show "cloudinaryUploadCache (uploadSettles p Rejected u) sceneId = None"
      using p by (simp add: uploadSettles_def Let_def)
  qed
  have e: "uploads (snd (pollingCompleted sceneId u)) =
        uploads u @ [\<lparr>up_sceneId = sceneId, up_origin = PollingCoordinator, up_promise = Pending\<rparr>]
   \<and> cloudinaryUploadCache (snd (pollingCompleted sceneId u)) = cloudinaryUploadCache u"
    by (simp add: pollingCompleted_def)
  show ?thesis using a b c d e by blast
qed

text \<open>
  Two status-check completions of one scene: one upload, which both await. When it fails,
  the entry is gone and the next completion starts a second upload, the only live one.
\<close>

theorem route_uploads_deduplicated_witness:
  "cloudinaryUploadCache (run [RouteCompleted ''scene-1''] initial_uploader) ''scene-1'' = Some 0
   \<and> statusRouteCompleted ''scene-1'' (run [RouteCompleted ''scene-1''] initial_uploader)
       = (0, run [RouteCompleted ''scene-1''] initial_uploader)
   \<and> up_promise (uploads (run [RouteCompleted ''scene-1''] initial_uploader) ! 0) = Pending
   \<and> cloudinaryUploadCache
        (uploadSettles 0 Rejected (run [RouteCompleted ''scene-1''] initial_uploader)) ''scene-1''
       = None
   \<and> liveRouteUploads ''scene-1''
        (run [RouteCompleted ''scene-1'', RouteCompleted ''scene-1'', Settled 0 Rejected,
              RouteCompleted ''scene-1''] initial_uploader) = [1]"
proof -
  let ?u = "run [RouteCompleted ''scene-1''] initial_uploader"
  have h1: "cloudinaryUploadCache ?u ''scene-1'' = Some 0"
    by (simp add: initial_uploader_def statusRouteCompleted_def Let_def)
  have h2: "up_promise (uploads ?u ! 0) = Pending"
    by (simp add: initial_uploader_def statusRouteCompleted_def Let_def)
  note T = route_uploads_deduplicated [of "''scene-1''" "[RouteCompleted ''scene-1'']"]
  have a: "statusRouteCompleted ''scene-1'' ?u = (0, ?u)"
    using T h1 by blast
  have b: "cloudinaryUploadCache (uploadSettles 0 Rejected ?u) ''scene-1'' = None"
    using T h1 h2 by blast
  have c: "liveRouteUploads ''scene-1''
        (run [RouteCompleted ''scene-1'', RouteCompleted ''scene-1'', Settled 0 Rejected,
              RouteCompleted ''scene-1''] initial_uploader) = [1]"
    by (simp add: liveRouteUploads_def initial_uploader_def statusRouteCompleted_def
          uploadSettles_def Let_def upt_rec)
  show ?thesis using h1 h2 a b c by simp
qed


end
